theory Spec2Isabelle
  imports Main "HOL-Library.Sublist" "HOL-Library.Word" "HOL-Library.AList"
    "HOL-Library.Char_ord" "HOL-Library.List_Lexorder"
begin

section \<open>Python strings\<close>

text \<open>
  Python \<open>str\<close> values are modelled as \<open>string\<close>; one \<open>char\<close> stands for one code point
  below 256. The character classes below are those of \<open>str.isspace\<close>, \<open>str.isdigit\<close> and
  \<open>str.splitlines\<close> on that range.
\<close>

definition py_isspace :: "char \<Rightarrow> bool" where
  "py_isspace c =
     (let n = (of_char c :: nat)
      in (9 \<le> n \<and> n \<le> 13) \<or> (28 \<le> n \<and> n \<le> 32) \<or> n = 133 \<or> n = 160)"

definition py_linebreak :: "char \<Rightarrow> bool" where
  "py_linebreak c =
     (let n = (of_char c :: nat)
      in (10 \<le> n \<and> n \<le> 13) \<or> (28 \<le> n \<and> n \<le> 30) \<or> n = 133)"

definition ascii_digit :: "char \<Rightarrow> bool" where
  "ascii_digit c = (let n = (of_char c :: nat) in 48 \<le> n \<and> n \<le> 57)"

definition py_isdigit_char :: "char \<Rightarrow> bool" where
  "py_isdigit_char c =
     (let n = (of_char c :: nat) in ascii_digit c \<or> n = 178 \<or> n = 179 \<or> n = 185)"

definition py_isdigit :: "string \<Rightarrow> bool" where
  "py_isdigit s = (s \<noteq> [] \<and> list_all py_isdigit_char s)"

text \<open>\<open>s.lstrip(chars)\<close> and \<open>s.rstrip(chars)\<close>: the argument is a set of characters.\<close>

definition py_lstrip_chars :: "string \<Rightarrow> string \<Rightarrow> string" where
  "py_lstrip_chars chars s = dropWhile (\<lambda>c. c \<in> set chars) s"

definition py_rstrip_chars :: "string \<Rightarrow> string \<Rightarrow> string" where
  "py_rstrip_chars chars s = rev (dropWhile (\<lambda>c. c \<in> set chars) (rev s))"

definition py_strip :: "string \<Rightarrow> string" where
  "py_strip s = rev (dropWhile py_isspace (rev (dropWhile py_isspace s)))"

text \<open>\<open>s.replace(":", "")\<close>.\<close>

definition remove_colons :: "string \<Rightarrow> string" where
  "remove_colons s = filter (\<lambda>c. c \<noteq> CHR '':'') s"

text \<open>\<open>s.split()\<close>: the maximal runs of non-whitespace characters.\<close>

fun py_split_aux :: "string \<Rightarrow> string \<Rightarrow> string list" where
  "py_split_aux cur [] = (if cur = [] then [] else [rev cur])"
| "py_split_aux cur (c # cs) =
     (if py_isspace c
      then (if cur = [] then py_split_aux [] cs else rev cur # py_split_aux [] cs)
      else py_split_aux (c # cur) cs)"

definition py_split :: "string \<Rightarrow> string list" where
  "py_split s = py_split_aux [] s"

text \<open>\<open>s.splitlines()\<close>: a carriage return followed by a line feed is one boundary.\<close>

fun splitlines_aux :: "string \<Rightarrow> string \<Rightarrow> string list" where
  "splitlines_aux cur [] = (if cur = [] then [] else [rev cur])"
| "splitlines_aux cur [c] = (if py_linebreak c then [rev cur] else [rev (c # cur)])"
| "splitlines_aux cur (c # d # cs) =
     (if c = CHR 0x0D \<and> d = CHR 0x0A then rev cur # splitlines_aux [] cs
      else if py_linebreak c then rev cur # splitlines_aux [] (d # cs)
      else splitlines_aux (c # cur) (d # cs))"

definition splitlines :: "string \<Rightarrow> string list" where
  "splitlines s = splitlines_aux [] s"

text \<open>\<open>str(n)\<close> for an integer.\<close>

definition digit_char :: "nat \<Rightarrow> char" where
  "digit_char d = char_of (48 + d)"

function str_nat :: "nat \<Rightarrow> string" where
  "str_nat n =
     (if n < 10 then [digit_char n] else str_nat (n div 10) @ [digit_char (n mod 10)])"
  by pat_completeness auto
termination
  by (relation "measure id") auto

declare str_nat.simps [simp del]

definition str_int :: "int \<Rightarrow> string" where
  "str_int i = (if i < 0 then CHR ''-'' # str_nat (nat (- i)) else str_nat (nat i))"


datatype py_exception =
    ValueError string
  | KeyError string
  | AttributeError string string
  | TypeError string
  | OSError string
  | JSONDecodeError

text \<open>
  A computation that may raise is a value of \<open>py_exception + 'a\<close>; \<open>bind_exc m f\<close> runs
  \<open>f\<close> on the result of \<open>m\<close> unless \<open>m\<close> raised.
\<close>

definition bind_exc ::
  "py_exception + 'a \<Rightarrow> ('a \<Rightarrow> py_exception + 'b) \<Rightarrow> py_exception + 'b" where
  "bind_exc m f = (case m of Inl exc \<Rightarrow> Inl exc | Inr v \<Rightarrow> f v)"

definition digit_val :: "char \<Rightarrow> int" where
  "digit_val c = int (of_char c) - 48"

definition digits_value :: "string \<Rightarrow> int" where
  "digits_value s = foldl (\<lambda>acc c. 10 * acc + digit_val c) 0 s"

text \<open>
  \<open>int(s)\<close>, applied in the source only to strings that passed \<open>isdigit()\<close> or were
  matched by \<open>\d+\<close>. A leading run of more than 4300 decimal digits exceeds the
  interpreter's limit for the conversion; otherwise the conversion succeeds on a non-empty
  string of decimal digits and fails on anything else, such as the superscript digits that
  \<open>isdigit()\<close> also accepts. Each failure is a ValueError.
\<close>

definition int_max_str_digits :: nat where
  "int_max_str_digits = 4300"

definition py_int :: "string \<Rightarrow> py_exception + int" where
  "py_int s =
     (let run = takeWhile ascii_digit s
      in if int_max_str_digits < length run
         then Inl (ValueError (''Exceeds the limit (4300 digits) for integer string conversion: '' @
                     ''value has '' @ str_nat (length run) @ '' digits; '' @
                     ''use sys.set_int_max_str_digits() to increase the limit''))
         else if s \<noteq> [] \<and> run = s
         then Inr (digits_value s)
         else Inl (ValueError (''invalid literal for int() with base 10: '' @
                     [CHR 0x27] @ s @ [CHR 0x27])))"


section \<open>Data model (core.py)\<close>

text \<open>
  The values of an analyzer's \<open>data\<close> dictionary and of a persisted record: JSON values.
  A dictionary is an association list in insertion order.
\<close>

datatype json =
    JNull
  | JBool bool
  | JInt int
  | JStr string
  | JList "json list"
  | JObj "(string \<times> json) list"

text \<open>
  Python does not enforce the annotations of a dataclass, and \<open>Snapshot.from_dict\<close> stores
  whatever values the persisted record holds: the fields below are JSON values. In a result
  built by an analyzer, \<open>success\<close> and \<open>truncated\<close> are booleans and \<open>error\<close> is a string or
  null.
\<close>

record analysis_result =
  analyzer_name :: string
  success :: json
  data :: json
  error :: json
  truncated :: json

definition failed_result :: "string \<Rightarrow> string \<Rightarrow> analysis_result" where
  "failed_result nm msg =
     \<lparr>analyzer_name = nm, success = JBool False, data = JObj [], error = JStr msg,
      truncated = JBool False\<rparr>"

definition ok_result :: "string \<Rightarrow> json \<Rightarrow> analysis_result" where
  "ok_result nm d =
     \<lparr>analyzer_name = nm, success = JBool True, data = d, error = JNull,
      truncated = JBool False\<rparr>"


section \<open>Validator (core.py)\<close>

text \<open>
  \<open>ValidationResult\<close>; its fields \<open>file_type\<close> and \<open>error\<close> are \<open>vfile_type\<close> and
  \<open>verror\<close> here. The file that \<open>validate\<close> is given is absent, or not readable, or has
  the bytes listed, or has a size and fails with IOError when it is opened or read.
\<close>

type_synonym byte = "8 word"

record validation_result =
  valid :: bool
  vfile_type :: "string option"
  verror :: "string option"
  details :: "(string \<times> json) list"

datatype file_state =
    NotFound
  | NotReadable
  | FileBytes "byte list"
  | ReadFails nat string

text \<open>A big-endian field of \<open>struct.unpack(">HHIIIHH", header)\<close>.\<close>

definition be_nat :: "byte list \<Rightarrow> nat" where
  "be_nat bs = foldl (\<lambda>acc b. 256 * acc + unat b) 0 bs"

definition hex_digit :: "nat \<Rightarrow> char" where
  "hex_digit d = (if d < 10 then char_of (48 + d) else char_of (55 + d))"

function hex_nat :: "nat \<Rightarrow> string" where
  "hex_nat n =
     (if n < 16 then [hex_digit n] else hex_nat (n div 16) @ [hex_digit (n mod 16)])"
  by pat_completeness auto
termination
  by (relation "measure id") auto

declare hex_nat.simps [simp del]

text \<open>The format \<open>{n:04X}\<close>: upper-case hexadecimal, padded with zeros to four digits.\<close>

definition hex04 :: "nat \<Rightarrow> string" where
  "hex04 n = (let s = hex_nat n in replicate (4 - length s) CHR ''0'' @ s)"

text \<open>\<open>sep.join(xs)\<close>.\<close>

definition py_join :: "string \<Rightarrow> string list \<Rightarrow> string" where
  "py_join sep xs = (case xs of [] \<Rightarrow> [] | x # rest \<Rightarrow> x @ concat (map (\<lambda>y. sep @ y) rest))"

definition MAGIC_32 :: nat where "MAGIC_32 = 0x01DF"
definition MAGIC_64 :: nat where "MAGIC_64 = 0x01F7"
definition AR_MAGIC :: "byte list" where
  "AR_MAGIC = [0x21, 0x3C, 0x61, 0x72, 0x63, 0x68, 0x3E, 0x0A]"

definition validate_xcoff :: "byte list \<Rightarrow> nat \<Rightarrow> string \<Rightarrow> validation_result" where
  "validate_xcoff header file_size file_type =
     (let magic = be_nat (take 2 header);
          nscns = be_nat (take 2 (drop 2 header));
          timdat = be_nat (take 4 (drop 4 header));
          symptr = be_nat (take 4 (drop 8 header));
          nsyms = be_nat (take 4 (drop 12 header));
          opthdr = be_nat (take 2 (drop 16 header));
          flags = be_nat (take 2 (drop 18 header));
          details =
            [(''magic'', JStr (''0x'' @ hex04 magic)),
             (''sections'', JInt (int nscns)),
             (''timestamp'', JInt (int timdat)),
             (''symbol_table_offset'', JInt (int symptr)),
             (''symbol_count'', JInt (int nsyms)),
             (''optional_header_size'', JInt (int opthdr)),
             (''flags'', JStr (''0x'' @ hex04 flags)),
             (''file_size'', JInt (int file_size))];
          errors =
            (if nscns > 1000 then [''Suspicious section count: '' @ str_nat nscns] else []) @
            (if symptr > 0 \<and> symptr > file_size
             then [''Symbol table offset beyond file size''] else []) @
            (if opthdr > 1024 then [''Suspicious optional header size: '' @ str_nat opthdr]
             else [])
      in if errors \<noteq> []
         then \<lparr>valid = False, vfile_type = Some file_type,
               verror = Some (py_join ''; '' errors), details = details\<rparr>
         else \<lparr>valid = True, vfile_type = Some file_type, verror = None, details = details\<rparr>)"

definition validate :: "string \<Rightarrow> file_state \<Rightarrow> validation_result" where
  "validate filepath file =
     (case file of
        NotFound \<Rightarrow>
          \<lparr>valid = False, vfile_type = None,
           verror = Some (''File not found: '' @ filepath), details = []\<rparr>
      | NotReadable \<Rightarrow>
          \<lparr>valid = False, vfile_type = None,
           verror = Some (''File not readable: '' @ filepath), details = []\<rparr>
      | ReadFails file_size msg \<Rightarrow>
          if file_size < 20
          then \<lparr>valid = False, vfile_type = None,
                verror = Some (''File too small: '' @ str_nat file_size @ '' bytes''),
                details = [(''file_size'', JInt (int file_size))]\<rparr>
          else \<lparr>valid = False, vfile_type = None,
                verror = Some (''I/O error: '' @ msg), details = []\<rparr>
      | FileBytes content \<Rightarrow>
          (let file_size = length content
           in if file_size < 20
              then \<lparr>valid = False, vfile_type = None,
                    verror = Some (''File too small: '' @ str_nat file_size @ '' bytes''),
                    details = [(''file_size'', JInt (int file_size))]\<rparr>
              else (let header = take 20 content
                    in if take 8 header = AR_MAGIC
                       then \<lparr>valid = True, vfile_type = Some ''archive'', verror = None,
                             details = [(''file_size'', JInt (int file_size))]\<rparr>
                       else (let magic = be_nat (take 2 header)
                             in if magic = MAGIC_32
                                then validate_xcoff header file_size ''xcoff32''
                                else if magic = MAGIC_64
                                then validate_xcoff header file_size ''xcoff64''
                                else \<lparr>valid = False, vfile_type = None,
                                      verror = Some (''Invalid magic: 0x'' @ hex04 magic),
                                      details = [(''magic'', JInt (int magic)),
                                                 (''file_size'', JInt (int file_size))]\<rparr>))))"

text \<open>A 20-byte header with the 32-bit magic and the symbol-table offset 4096.\<close>

definition crafted_header :: "byte list" where
  "crafted_header =
     [0x01, 0xDF, 0x00, 0x03, 0, 0, 0, 1, 0, 0, 0x10, 0x00, 0, 0, 0, 5, 0x00, 0x48, 0x10, 0x02]"

subsection \<open>Properties of the validator\<close>

lemma sublist_py_join: "x \<in> set xs \<Longrightarrow> sublist x (py_join sep xs)"
proof -
  have aux: "x \<in> set ys \<Longrightarrow> sublist x (concat (map (\<lambda>y. sep @ y) ys))" for ys
  proof (induction ys)
    case Nil then show ?case by simp
  next
    case (Cons y ys)
    then show ?case
      by (auto simp: sublist_append)
  qed
  assume "x \<in> set xs"
  then show ?thesis
    by (cases xs) (auto simp: py_join_def sublist_append dest: aux)
qed

lemma magic32_not_archive:
  assumes "20 \<le> length bs" "be_nat (take 2 bs) = MAGIC_32"
  shows "take 8 (take 20 bs) \<noteq> AR_MAGIC"
proof -
  obtain b0 b1 rest where bs: "bs = b0 # b1 # rest"
    using assms(1) by (cases bs; cases "tl bs") auto
  have "256 * unat b0 + unat b1 = 479"
    using assms(2) by (simp add: bs be_nat_def MAGIC_32_def)
  moreover have "unat b1 < 256" using unsigned_less [of b1, where ?'a = nat] by simp
  ultimately have "unat b0 = 1" by arith
  then have "b0 \<noteq> 0x21" by auto
  then show ?thesis
    by (auto simp: bs AR_MAGIC_def)
qed

text \<open>
  Claim C6: a file of at least 20 bytes that starts with the 32-bit magic and whose
  symbol-table offset exceeds the file size is not valid, its error names the
  symbol-table offset, and \<open>details\<close> still holds every decoded header field.
\<close>

theorem validate_symptr_beyond_file:
  assumes "20 \<le> length bs"
      and "be_nat (take 2 bs) = MAGIC_32"
      and "length bs < be_nat (take 4 (drop 8 bs))"
  shows "\<not> valid (validate fp (FileBytes bs)) \<and>
         (\<exists>e. verror (validate fp (FileBytes bs)) = Some e \<and>
              sublist ''Symbol table offset beyond file size'' e) \<and>
         details (validate fp (FileBytes bs)) =
           [(''magic'', JStr ''0x01DF''),
            (''sections'', JInt (int (be_nat (take 2 (drop 2 bs))))),
            (''timestamp'', JInt (int (be_nat (take 4 (drop 4 bs))))),
            (''symbol_table_offset'', JInt (int (be_nat (take 4 (drop 8 bs))))),
            (''symbol_count'', JInt (int (be_nat (take 4 (drop 12 bs))))),
            (''optional_header_size'', JInt (int (be_nat (take 2 (drop 16 bs))))),
            (''flags'', JStr (''0x'' @ hex04 (be_nat (take 2 (drop 18 bs))))),
            (''file_size'', JInt (int (length bs)))]"
proof -
  let ?h = "take 20 bs"
  have hex: "hex04 MAGIC_32 = ''01DF''" by code_simp
  have tk: "take 2 ?h = take 2 bs" "take 2 (drop 2 ?h) = take 2 (drop 2 bs)"
    "take 4 (drop 4 ?h) = take 4 (drop 4 bs)" "take 4 (drop 8 ?h) = take 4 (drop 8 bs)"
    "take 4 (drop 12 ?h) = take 4 (drop 12 bs)" "take 2 (drop 16 ?h) = take 2 (drop 16 bs)"
    "take 2 (drop 18 ?h) = take 2 (drop 18 bs)"
    by (simp_all add: drop_take min_def)
  have v: "validate fp (FileBytes bs) = validate_xcoff ?h (length bs) ''xcoff32''"
    using assms magic32_not_archive [OF assms(1,2)]
    by (simp add: validate_def Let_def tk)
  let ?errs = "(if be_nat (take 2 (drop 2 bs)) > 1000 then [''Suspicious section count: '' @ str_nat (be_nat (take 2 (drop 2 bs)))] else []) @
            [''Symbol table offset beyond file size''] @
            (if be_nat (take 2 (drop 16 bs)) > 1024 then [''Suspicious optional header size: '' @ str_nat (be_nat (take 2 (drop 16 bs)))]
             else [])"
  have mem: "''Symbol table offset beyond file size'' \<in> set ?errs" by simp
  have sub: "sublist ''Symbol table offset beyond file size'' (py_join ''; '' ?errs)"
    using mem by (rule sublist_py_join)
  have pos: "0 < be_nat (take 4 (drop 8 bs))" using assms(3) by simp
  show ?thesis
    unfolding v using assms pos sub hex
    by (simp add: validate_xcoff_def Let_def tk)
qed

theorem validate_symptr_beyond_file_witness:
  "20 \<le> length crafted_header \<and>
   be_nat (take 2 crafted_header) = MAGIC_32 \<and>
   length crafted_header < be_nat (take 4 (drop 8 crafted_header)) \<and>
   \<not> valid (validate ''/tmp/a.o'' (FileBytes crafted_header)) \<and>
   verror (validate ''/tmp/a.o'' (FileBytes crafted_header)) =
     Some ''Symbol table offset beyond file size'' \<and>
   details (validate ''/tmp/a.o'' (FileBytes crafted_header)) =
     [(''magic'', JStr ''0x01DF''), (''sections'', JInt 3), (''timestamp'', JInt 1),
      (''symbol_table_offset'', JInt 4096), (''symbol_count'', JInt 5),
      (''optional_header_size'', JInt 72), (''flags'', JStr ''0x1002''),
      (''file_size'', JInt 20)]"
proof -
  have h1: "20 \<le> length crafted_header"
    by (simp add: crafted_header_def)
  have h2: "be_nat (take 2 crafted_header) = MAGIC_32"
    by (simp add: crafted_header_def be_nat_def MAGIC_32_def)
  have h3: "length crafted_header < be_nat (take 4 (drop 8 crafted_header))"
    by (simp add: crafted_header_def be_nat_def)
  have e: "verror (validate ''/tmp/a.o'' (FileBytes crafted_header)) =
             Some ''Symbol table offset beyond file size''"
    by code_simp
  have f: "be_nat (take 2 (drop 2 crafted_header)) = 3"
    "be_nat (take 4 (drop 4 crafted_header)) = 1"
    "be_nat (take 4 (drop 8 crafted_header)) = 4096"
    "be_nat (take 4 (drop 12 crafted_header)) = 5"
    "be_nat (take 2 (drop 16 crafted_header)) = 72"
    "hex04 (be_nat (take 2 (drop 18 crafted_header))) = ''1002''"
    "length crafted_header = 20"
    by code_simp+
  from validate_symptr_beyond_file [OF h1 h2 h3, of "''/tmp/a.o''"] h1 h2 h3 e f
  show ?thesis
    by simp
qed


section \<open>Analyzers (analyzers.py)\<close>

text \<open>
  The external command is a collaborator: \<open>subprocess.run\<close> either completes with an exit
  status, stdout and stderr, or raises TimeoutExpired, or FileNotFoundError when the tool is
  absent, or another exception; the message of an exception is kept. An analyzer's
  \<open>analyze\<close> returns the commands it ran, in order, with its result.
\<close>

datatype run_outcome =
    Completed int string string
  | TimeoutExpired
  | FileNotFoundError string
  | Raised string

type_synonym runner = "string list \<Rightarrow> int \<Rightarrow> run_outcome"

definition exit_error :: "int \<Rightarrow> string \<Rightarrow> string" where
  "exit_error returncode stderr =
     (if py_strip stderr \<noteq> [] then py_strip stderr else ''Exit code '' @ str_int returncode)"

definition timeout_error :: "int \<Rightarrow> string" where
  "timeout_error timeout = ''Timeout after '' @ str_int timeout @ ''s''"

subsection \<open>Identification strings\<close>

definition what_parse_output :: "string \<Rightarrow> string list" where
  "what_parse_output output =
     filter (\<lambda>line. line \<noteq> [] \<and> \<not> suffix '':'' line) (map py_strip (splitlines output))"

definition what_analyze :: "runner \<Rightarrow> string \<Rightarrow> int \<Rightarrow> string list list \<times> analysis_result" where
  "what_analyze run filepath timeout =
     (let cmd = [''what'', filepath]
      in ([cmd],
          case run cmd timeout of
            Completed returncode stdout stderr \<Rightarrow>
              if returncode \<noteq> 0 \<and> stdout = []
              then failed_result ''what'' (exit_error returncode stderr)
              else (let strings = what_parse_output stdout
                    in ok_result ''what''
                         (JObj [(''strings'', JList (map JStr strings)),
                                (''count'', JInt (int (length strings)))]))
          | TimeoutExpired \<Rightarrow> failed_result ''what'' (timeout_error timeout)
          | FileNotFoundError msg \<Rightarrow> failed_result ''what'' msg
          | Raised msg \<Rightarrow> failed_result ''what'' msg))"

lemma rstrip_decomp:
  "rev (dropWhile P (rev t)) @ rev (takeWhile P (rev t)) = t"
  by (metis rev_append rev_rev_ident takeWhile_dropWhile_id)

subsection \<open>Section headers\<close>

text \<open>
  The character classes of the fallback pattern: \<open>\s\<close> is \<open>py_isspace\<close>, \<open>\d\<close> is
  \<open>ascii_digit\<close>, \<open>\w\<close> is \<open>re_word\<close>, and \<open>[0-9a-fA-Fx]\<close> is \<open>hex_class\<close>.
\<close>

definition re_word :: "char \<Rightarrow> bool" where
  "re_word c =
     (let n = (of_char c :: nat)
      in (48 \<le> n \<and> n \<le> 57) \<or> (65 \<le> n \<and> n \<le> 90) \<or> n = 95 \<or> (97 \<le> n \<and> n \<le> 122) \<or>
         n = 170 \<or> n = 178 \<or> n = 179 \<or> n = 181 \<or> n = 185 \<or> n = 186 \<or>
         (188 \<le> n \<and> n \<le> 190) \<or> (192 \<le> n \<and> n \<le> 214) \<or> (216 \<le> n \<and> n \<le> 246) \<or>
         248 \<le> n)"

definition hex_class :: "char \<Rightarrow> bool" where
  "hex_class c = (ascii_digit c \<or> c \<in> set ''abcdefABCDEFx'')"

text \<open>
  A greedy \<open>+\<close> item of the pattern. Every such item is followed by an item that no
  character of its own class can start (or by the end of the pattern), so the longest run
  is the only one a match can use.
\<close>

definition re_plus :: "(char \<Rightarrow> bool) \<Rightarrow> string \<Rightarrow> (string \<times> string) option" where
  "re_plus P s = (let m = takeWhile P s in if m = [] then None else Some (m, dropWhile P s))"

text \<open>The group \<open>(\.\w+|\w+)\<close>.\<close>

definition re_name :: "string \<Rightarrow> (string \<times> string) option" where
  "re_name s =
     (case s of
        [] \<Rightarrow> None
      | c # cs \<Rightarrow>
          if c = CHR ''.''
          then (case re_plus re_word cs of None \<Rightarrow> None | Some (m, r) \<Rightarrow> Some (c # m, r))
          else re_plus re_word s)"

text \<open>
  One attempt of \<open>\s*(\d+)\s+(\.\w+|\w+)\s+([0-9a-fA-Fx]+)\s+([0-9a-fA-Fx]+)\<close> at the
  start of \<open>s\<close>: the four groups and the text after the match.
\<close>

type_synonym section_match = "string \<times> string \<times> string \<times> string"

definition section_pattern_match :: "string \<Rightarrow> (section_match \<times> string) option" where
  "section_pattern_match s =
     (case re_plus ascii_digit (dropWhile py_isspace s) of None \<Rightarrow> None | Some (g1, s1) \<Rightarrow>
      (case re_plus py_isspace s1 of None \<Rightarrow> None | Some (w1, s2) \<Rightarrow>
       (case re_name s2 of None \<Rightarrow> None | Some (g2, s3) \<Rightarrow>
        (case re_plus py_isspace s3 of None \<Rightarrow> None | Some (w2, s4) \<Rightarrow>
         (case re_plus hex_class s4 of None \<Rightarrow> None | Some (g3, s5) \<Rightarrow>
          (case re_plus py_isspace s5 of None \<Rightarrow> None | Some (w3, s6) \<Rightarrow>
           (case re_plus hex_class s6 of None \<Rightarrow> None | Some (g4, s7) \<Rightarrow>
              Some ((g1, g2, g3, g4), s7))))))))"

lemma re_plus_shorter: "re_plus P s = Some (m, r) \<Longrightarrow> length r < length s"
proof -
  assume a: "re_plus P s = Some (m, r)"
  then have "m = takeWhile P s" "r = dropWhile P s" "m \<noteq> []"
    by (auto simp: re_plus_def Let_def split: if_splits)
  moreover have "length (takeWhile P s) + length (dropWhile P s) = length s"
    by (metis length_append takeWhile_dropWhile_id)
  ultimately show ?thesis by (cases "takeWhile P s") auto
qed

lemma re_name_shorter: "re_name s = Some (m, r) \<Longrightarrow> length r < length s"
  by (auto simp: re_name_def split: list.splits if_splits option.splits
      dest!: re_plus_shorter)

lemma section_pattern_match_shorter:
  assumes "section_pattern_match s = Some (m, r)"
  shows "length r < length s"
proof -
  from assms obtain g1 s1 w1 s2 g2 s3 w2 s4 g3 s5 w3 s6 g4 where
    1: "re_plus ascii_digit (dropWhile py_isspace s) = Some (g1, s1)" and
    2: "re_plus py_isspace s1 = Some (w1, s2)" and
    3: "re_name s2 = Some (g2, s3)" and
    4: "re_plus py_isspace s3 = Some (w2, s4)" and
    5: "re_plus hex_class s4 = Some (g3, s5)" and
    6: "re_plus py_isspace s5 = Some (w3, s6)" and
    7: "re_plus hex_class s6 = Some (g4, r)"
    by (auto simp: section_pattern_match_def split: option.splits)
  have "length (dropWhile py_isspace s) \<le> length s"
    by (rule length_dropWhile_le)
  with re_plus_shorter [OF 1] re_plus_shorter [OF 2] re_name_shorter [OF 3]
    re_plus_shorter [OF 4] re_plus_shorter [OF 5] re_plus_shorter [OF 6]
    re_plus_shorter [OF 7]
  show ?thesis by linarith
qed

text \<open>
  \<open>section_pattern.finditer(output)\<close> with \<open>re.MULTILINE\<close>: the scan tries the pattern
  at every position that starts a line (the start of the text, or just after a line feed),
  from left to right, and resumes after each match. The flag says whether the current
  position starts a line.
\<close>

function finditer_from :: "bool \<Rightarrow> string \<Rightarrow> section_match list" where
  "finditer_from bol [] = []"
| "finditer_from bol (c # cs) =
     (case (if bol then section_pattern_match (c # cs) else None) of
        Some (m, rest) \<Rightarrow> m # finditer_from False rest
      | None \<Rightarrow> finditer_from (c = CHR 0x0A) cs)"
  by pat_completeness auto
termination
  by (relation "measure (\<lambda>(bol, s). length s)")
    (auto split: if_splits dest: section_pattern_match_shorter)

definition section_pattern_finditer :: "string \<Rightarrow> section_match list" where
  "section_pattern_finditer output = finditer_from True output"


text \<open>The record built for one row of the whitespace table, from its tokens.\<close>

definition table_section :: "int \<Rightarrow> string list \<Rightarrow> json" where
  "table_section idx parts =
     JObj ([(''index'', JInt idx), (''name'', JStr (parts ! 1))] @
           (if 3 \<le> length parts then [(''size'', JStr (parts ! 2))] else []) @
           (if 4 \<le> length parts then [(''vma'', JStr (parts ! 3))] else []) @
           (if 5 \<le> length parts then [(''lma'', JStr (parts ! 4))] else []) @
           (if 6 \<le> length parts then [(''file_offset'', JStr (parts ! 5))] else []))"

text \<open>
  The loop of \<open>DumpHeadersAnalyzer._parse_output\<close> over the lines, with the flag
  \<open>in_section_table\<close>; \<open>int(parts[0])\<close> may raise.
\<close>

fun headers_loop :: "bool \<Rightarrow> string list \<Rightarrow> py_exception + json list" where
  "headers_loop in_section_table [] = Inr []"
| "headers_loop in_section_table (raw_line # ls) =
     (let line = py_strip raw_line
      in if line = [] then headers_loop in_section_table ls
         else if sublist ''Idx'' line \<and> sublist ''Name'' line then headers_loop True ls
         else if in_section_table
         then (let parts = py_split line
               in if 2 \<le> length parts \<and> py_isdigit (parts ! 0)
                  then bind_exc (py_int (parts ! 0)) (\<lambda>idx.
                       bind_exc (headers_loop in_section_table ls) (\<lambda>sections.
                         Inr (table_section idx parts # sections)))
                  else headers_loop in_section_table ls)
         else headers_loop in_section_table ls)"

text \<open>\<open>_parse_aix_format\<close>: one record per match of the pattern, in match order.\<close>

fun aix_sections :: "section_match list \<Rightarrow> py_exception + json list" where
  "aix_sections [] = Inr []"
| "aix_sections ((g1, g2, g3, g4) # ms) =
     bind_exc (py_int g1) (\<lambda>idx.
     bind_exc (aix_sections ms) (\<lambda>sections.
       Inr (JObj [(''index'', JInt idx), (''name'', JStr g2), (''size'', JStr g3),
                  (''address'', JStr g4)] # sections)))"

definition parse_aix_format :: "string \<Rightarrow> py_exception + json list" where
  "parse_aix_format output = aix_sections (section_pattern_finditer output)"

definition headers_parse_output :: "string \<Rightarrow> py_exception + json list" where
  "headers_parse_output output =
     bind_exc (headers_loop False (splitlines output)) (\<lambda>sections.
       if sections = [] then parse_aix_format output else Inr sections)"

text \<open>The record of a match whose first group is a run of decimal digits.\<close>

definition aix_section :: "section_match \<Rightarrow> json" where
  "aix_section m =
     (case m of (g1, g2, g3, g4) \<Rightarrow>
        JObj [(''index'', JInt (digits_value g1)), (''name'', JStr g2), (''size'', JStr g3),
              (''address'', JStr g4)])"

lemma sublist_py_strip: "sublist (py_strip l) l"
proof -
  have "prefix (py_strip l) (dropWhile py_isspace l)"
    unfolding py_strip_def
    by (metis rstrip_decomp prefixI)
  moreover have "suffix (dropWhile py_isspace l) l"
    by (rule suffix_dropWhile)
  ultimately show ?thesis
    by (meson prefix_imp_sublist suffix_imp_sublist sublist_order.order.trans)
qed

lemma sublist_of_strip: "sublist x (py_strip l) \<Longrightarrow> sublist x l"
  using sublist_py_strip sublist_order.order.trans by blast

lemma headers_loop_no_header:
  "\<forall>l \<in> set ls. \<not> (sublist ''Idx'' l \<and> sublist ''Name'' l) \<Longrightarrow>
   headers_loop False ls = Inr []"
proof (induction ls)
  case Nil
  then show ?case by simp
next
  case (Cons l ls)
  then have "\<not> (sublist ''Idx'' (py_strip l) \<and> sublist ''Name'' (py_strip l))"
    using sublist_of_strip by auto
  with Cons show ?case by (auto simp: Let_def)
qed

lemma re_plus_class:
  "re_plus P s = Some (m, r) \<Longrightarrow> m \<noteq> [] \<and> list_all P m"
  by (auto simp: re_plus_def Let_def list_all_iff split: if_splits dest: set_takeWhileD)

lemma section_pattern_match_digits:
  assumes "section_pattern_match s = Some ((g1, g2, g3, g4), r)"
  shows "g1 \<noteq> [] \<and> list_all ascii_digit g1"
proof -
  from assms obtain s1 where
    "re_plus ascii_digit (dropWhile py_isspace s) = Some (g1, s1)"
    by (auto simp: section_pattern_match_def split: option.splits)
  then show ?thesis by (rule re_plus_class)
qed

lemma finditer_from_digits:
  "(g1, g2, g3, g4) \<in> set (finditer_from bol s) \<Longrightarrow> g1 \<noteq> [] \<and> list_all ascii_digit g1"
proof (induction bol s rule: finditer_from.induct)
  case (1 bol)
  then show ?case by simp
next
  case (2 bol c cs)
  show ?case
  proof (cases "if bol then section_pattern_match (c # cs) else None")
    case None
    with 2 show ?thesis by simp
  next
    case (Some a)
    obtain m rest where a: "a = (m, rest)" by (cases a)
    from "2.prems" Some a have "(g1, g2, g3, g4) = m \<or> (g1, g2, g3, g4) \<in> set (finditer_from False rest)"
      by simp
    then show ?thesis
    proof
      assume "(g1, g2, g3, g4) = m"
      with Some a have "section_pattern_match (c # cs) = Some ((g1, g2, g3, g4), rest)"
        by (auto split: if_splits)
      then show ?thesis by (rule section_pattern_match_digits)
    next
      assume "(g1, g2, g3, g4) \<in> set (finditer_from False rest)"
      with "2.IH"(2) [OF Some a [symmetric]] show ?thesis by simp
    qed
  qed
qed

lemma py_int_digits:
  "s \<noteq> [] \<Longrightarrow> list_all ascii_digit s \<Longrightarrow> length s \<le> int_max_str_digits \<Longrightarrow>
   py_int s = Inr (digits_value s)"
  by (simp add: py_int_def Let_def list_all_iff takeWhile_eq_all_conv [THEN iffD2])

lemma aix_sections_digits:
  "\<forall>(g1, g2, g3, g4) \<in> set ms.
      g1 \<noteq> [] \<and> list_all ascii_digit g1 \<and> length g1 \<le> int_max_str_digits \<Longrightarrow>
   aix_sections ms = Inr (map aix_section ms)"
  by (induction ms) (auto simp: py_int_digits aix_section_def bind_exc_def)

lemma parse_aix_format_matches:
  assumes "\<forall>m \<in> set (section_pattern_finditer output). length (fst m) \<le> int_max_str_digits"
  shows "parse_aix_format output = Inr (map aix_section (section_pattern_finditer output))"
  unfolding parse_aix_format_def
proof (rule aix_sections_digits, clarify)
  fix g1 g2 g3 g4
  assume m: "(g1, g2, g3, g4) \<in> set (section_pattern_finditer output)"
  then have "g1 \<noteq> [] \<and> list_all ascii_digit g1"
    unfolding section_pattern_finditer_def by (rule finditer_from_digits)
  moreover from assms m have "length g1 \<le> int_max_str_digits" by fastforce
  ultimately show "g1 \<noteq> [] \<and> list_all ascii_digit g1 \<and> length g1 \<le> int_max_str_digits"
    by simp
qed

lemma headers_fallback_is_aix_format:
  assumes "\<forall>l \<in> set (splitlines output). \<not> (sublist ''Idx'' l \<and> sublist ''Name'' l)"
  shows "headers_parse_output output = parse_aix_format output"
  using headers_loop_no_header [OF assms]
  by (simp add: headers_parse_output_def bind_exc_def)

text \<open>
  Claim C7, as amended: when no line of the section-header dump contains both \<open>Idx\<close> and
  \<open>Name\<close>, and every index matched by the fallback pattern has at most 4300 digits, the
  parsed sections are exactly the records of the matches of the pattern over the whole
  output, in match order, duplicates kept.
\<close>

theorem headers_fallback_only:
  assumes "\<forall>l \<in> set (splitlines output). \<not> (sublist ''Idx'' l \<and> sublist ''Name'' l)"
      and "\<forall>m \<in> set (section_pattern_finditer output). length (fst m) \<le> int_max_str_digits"
  shows "headers_parse_output output =
           Inr (map aix_section (section_pattern_finditer output))"
  using headers_fallback_is_aix_format [OF assms(1)] parse_aix_format_matches [OF assms(2)]
  by simp

definition dense_output :: string where
  "dense_output =
     ''***Section Headers***'' @ [CHR 0x0A] @
     ''  0 .text 0x00001234 0x10000200'' @ [CHR 0x0A] @
     ''  1 .data 0x100 0x20000000'' @ [CHR 0x0A] @
     ''  1 .data 0x100 0x20000000''"

theorem headers_fallback_only_witness:
  "list_all (\<lambda>l. \<not> (sublist ''Idx'' l \<and> sublist ''Name'' l)) (splitlines dense_output) \<and>
   list_all (\<lambda>m. length (fst m) \<le> int_max_str_digits) (section_pattern_finditer dense_output) \<and>
   headers_parse_output dense_output =
     Inr [JObj [(''index'', JInt 0), (''name'', JStr ''.text''), (''size'', JStr ''0x00001234''),
                (''address'', JStr ''0x10000200'')],
          JObj [(''index'', JInt 1), (''name'', JStr ''.data''), (''size'', JStr ''0x100''),
                (''address'', JStr ''0x20000000'')],
          JObj [(''index'', JInt 1), (''name'', JStr ''.data''), (''size'', JStr ''0x100''),
                (''address'', JStr ''0x20000000'')]]"
proof -
  have h: "list_all (\<lambda>l. \<not> (sublist ''Idx'' l \<and> sublist ''Name'' l)) (splitlines dense_output)"
    by code_simp
  then have h': "\<forall>l \<in> set (splitlines dense_output). \<not> (sublist ''Idx'' l \<and> sublist ''Name'' l)"
    by (simp only: list_all_iff)
  have g: "list_all (\<lambda>m. length (fst m) \<le> int_max_str_digits)
             (section_pattern_finditer dense_output)"
    by code_simp
  then have g': "\<forall>m \<in> set (section_pattern_finditer dense_output).
                   length (fst m) \<le> int_max_str_digits"
    by (simp only: list_all_iff)
  have m: "map aix_section (section_pattern_finditer dense_output) =
     [JObj [(''index'', JInt 0), (''name'', JStr ''.text''), (''size'', JStr ''0x00001234''),
            (''address'', JStr ''0x10000200'')],
      JObj [(''index'', JInt 1), (''name'', JStr ''.data''), (''size'', JStr ''0x100''),
            (''address'', JStr ''0x20000000'')],
      JObj [(''index'', JInt 1), (''name'', JStr ''.data''), (''size'', JStr ''0x100''),
            (''address'', JStr ''0x20000000'')]]"
    by code_simp
  from headers_fallback_only [OF h' g'] h g m show ?thesis
    by simp
qed

lemma carriage_return_linebreak: "py_linebreak (CHR 0x0D)"
  by (simp add: py_linebreak_def)

lemma splitlines_aux_one_line:
  "\<forall>c \<in> set s. \<not> py_linebreak c \<Longrightarrow>
   splitlines_aux cur s = (if cur = [] \<and> s = [] then [] else [rev cur @ s])"
  by (induction cur s rule: splitlines_aux.induct) (auto simp: carriage_return_linebreak)

lemma idx_row_match:
  assumes "idx \<noteq> []" and "list_all ascii_digit idx"
  shows "section_pattern_match (idx @ '' .text 0x1 0x2'') =
           Some ((idx, ''.text'', ''0x1'', ''0x2''), [])"
proof -
  obtain c cs where idx: "idx = c # cs" using assms(1) by (cases idx) auto
  with assms(2) have c: "ascii_digit c" by simp
  then have nsp: "\<not> py_isspace c"
    by (auto simp: ascii_digit_def py_isspace_def Let_def)
  have dw: "dropWhile py_isspace (idx @ '' .text 0x1 0x2'') = idx @ '' .text 0x1 0x2''"
    using nsp by (simp add: idx)
  have all: "\<forall>x \<in> set idx. ascii_digit x"
    using assms(2) by (simp add: list_all_iff)
  have nd: "\<not> ascii_digit CHR '' ''"
    by (simp add: ascii_digit_def)
  have tw: "takeWhile ascii_digit (idx @ '' .text 0x1 0x2'') = idx"
    using all nd by (simp add: takeWhile_append2)
  have dr: "dropWhile ascii_digit (idx @ '' .text 0x1 0x2'') = '' .text 0x1 0x2''"
    using all nd by (simp add: dropWhile_append2)
  have g1: "re_plus ascii_digit (idx @ '' .text 0x1 0x2'') = Some (idx, '' .text 0x1 0x2'')"
    using assms(1) by (simp add: re_plus_def Let_def tw dr)
  have rest: "(case re_plus py_isspace '' .text 0x1 0x2'' of None \<Rightarrow> None | Some (w1, s2) \<Rightarrow>
      (case re_name s2 of None \<Rightarrow> None | Some (g2, s3) \<Rightarrow>
        (case re_plus py_isspace s3 of None \<Rightarrow> None | Some (w2, s4) \<Rightarrow>
         (case re_plus hex_class s4 of None \<Rightarrow> None | Some (g3, s5) \<Rightarrow>
          (case re_plus py_isspace s5 of None \<Rightarrow> None | Some (w3, s6) \<Rightarrow>
           (case re_plus hex_class s6 of None \<Rightarrow> None | Some (g4, s7) \<Rightarrow>
              Some ((idx, g2, g3, g4), s7))))))) = Some ((idx, ''.text'', ''0x1'', ''0x2''), [])"
    by (simp add: re_plus_def re_name_def Let_def py_isspace_def re_word_def hex_class_def
        ascii_digit_def)
  show ?thesis
    unfolding section_pattern_match_def dw g1 using rest by simp
qed

lemma idx_row_finditer:
  assumes "idx \<noteq> []" and "list_all ascii_digit idx"
  shows "section_pattern_finditer (idx @ '' .text 0x1 0x2'') =
           [(idx, ''.text'', ''0x1'', ''0x2'')]"
proof -
  obtain c cs where idx: "idx = c # cs" using assms(1) by (cases idx) auto
  have "finditer_from True (c # cs @ '' .text 0x1 0x2'') = [(idx, ''.text'', ''0x1'', ''0x2'')]"
    using idx_row_match [OF assms] by (simp add: idx)
  then show ?thesis by (simp add: section_pattern_finditer_def idx)
qed

text \<open>
  A dense row whose index has 4301 digits: the pattern matches it, and \<open>int\<close> refuses the
  index, so \<open>_parse_output\<close> raises where the claim promises the list of matches.
\<close>

definition long_index_output :: string where
  "long_index_output = replicate 4301 CHR ''1'' @ '' .text 0x1 0x2''"

theorem headers_long_index_counterexample:
  "list_all (\<lambda>l. \<not> (sublist ''Idx'' l \<and> sublist ''Name'' l)) (splitlines long_index_output) \<and>
   section_pattern_finditer long_index_output =
     [(replicate 4301 CHR ''1'', ''.text'', ''0x1'', ''0x2'')] \<and>
   headers_parse_output long_index_output =
     Inl (ValueError (''Exceeds the limit (4300 digits) for integer string conversion: '' @
            ''value has 4301 digits; use sys.set_int_max_str_digits() to increase the limit''))"
proof -
  let ?idx = "replicate 4301 CHR ''1''"
  have ne: "?idx \<noteq> []" by simp
  have dig: "list_all ascii_digit ?idx"
    by (simp add: list_all_iff ascii_digit_def)
  have chars: "set long_index_output = set ''1 .text0x2''"
    by (auto simp: long_index_output_def)
  have nlb: "\<forall>c \<in> set long_index_output. \<not> py_linebreak c"
    unfolding chars by (simp add: py_linebreak_def)
  have lines: "splitlines long_index_output = [long_index_output]"
    using splitlines_aux_one_line [OF nlb, of "[]"]
    by (simp add: splitlines_def long_index_output_def)
  have "\<not> sublist ''Idx'' long_index_output"
  proof
    assume "sublist ''Idx'' long_index_output"
    then have "set ''Idx'' \<subseteq> set long_index_output" by (rule set_mono_sublist)
    then show False unfolding chars by simp
  qed
  then have nohdr: "list_all (\<lambda>l. \<not> (sublist ''Idx'' l \<and> sublist ''Name'' l))
      (splitlines long_index_output)"
    by (simp add: lines)
  then have nohdr': "\<forall>l \<in> set (splitlines long_index_output).
      \<not> (sublist ''Idx'' l \<and> sublist ''Name'' l)"
    by (simp only: list_all_iff)
  have fi: "section_pattern_finditer long_index_output = [(?idx, ''.text'', ''0x1'', ''0x2'')]"
    unfolding long_index_output_def using ne dig by (rule idx_row_finditer)
  have n: "str_nat 4301 = ''4301''" by code_simp
  have tw: "takeWhile ascii_digit ?idx = ?idx"
    using dig by (simp add: takeWhile_eq_all_conv list_all_iff)
  have pi: "py_int ?idx =
     Inl (ValueError (''Exceeds the limit (4300 digits) for integer string conversion: '' @
            ''value has 4301 digits; use sys.set_int_max_str_digits() to increase the limit''))"
    unfolding py_int_def Let_def tw by (simp add: int_max_str_digits_def n)
  have "headers_parse_output long_index_output = parse_aix_format long_index_output"
    using nohdr' by (rule headers_fallback_is_aix_format)
  also have "\<dots> = Inl (ValueError (''Exceeds the limit (4300 digits) for integer string conversion: '' @
            ''value has 4301 digits; use sys.set_int_max_str_digits() to increase the limit''))"
    unfolding parse_aix_format_def fi by (simp add: pi bind_exc_def)
  finally show ?thesis using nohdr fi by simp
qed

subsection \<open>Loader symbols\<close>

text \<open>The loop of \<open>_extract_symbol_name\<close>, over the tokens from the last to the first.\<close>

fun extract_name_from :: "string list \<Rightarrow> string option" where
  "extract_name_from [] = None"
| "extract_name_from (part # rest) =
     (if part \<in> set [''IMP'', ''EXP'', ''EXTref'', ''SECdef'', ''DS''] then extract_name_from rest
      else if prefix ''0x'' part \<or> prefix ''['' part then extract_name_from rest
      else if py_isdigit part then extract_name_from rest
      else if part \<noteq> [] \<and> \<not> prefix ''.'' part then Some part
      else extract_name_from rest)"

definition extract_symbol_name :: "string list \<Rightarrow> string option" where
  "extract_symbol_name parts = extract_name_from (rev parts)"

definition extract_address :: "string list \<Rightarrow> string option" where
  "extract_address parts = find (prefix ''0x'') parts"

definition json_opt_str :: "string option \<Rightarrow> json" where
  "json_opt_str v = (case v of None \<Rightarrow> JNull | Some s \<Rightarrow> JStr s)"

text \<open>
  One iteration of the loop of \<open>_parse_output\<close>: the lists of imports and exports before
  the line, and after it.
\<close>

definition loader_line :: "string \<Rightarrow> json list \<times> json list \<Rightarrow> json list \<times> json list" where
  "loader_line raw_line acc =
     (let line = py_strip raw_line
      in if line = [] then acc
         else (let parts = py_split line
               in if length parts < 4 then acc
                  else if sublist ''IMP'' line \<or> sublist ''EXTref'' line
                  then (case extract_symbol_name parts of
                          None \<Rightarrow> acc
                        | Some nm \<Rightarrow>
                            if nm = [] then acc
                            else (fst acc @ [JObj [(''name'', JStr nm), (''type'', JStr ''IMP''),
                                                   (''raw'', JStr line)]],
                                  snd acc))
                  else if sublist ''EXP'' line \<or> sublist ''SECdef'' line
                  then (case extract_symbol_name parts of
                          None \<Rightarrow> acc
                        | Some nm \<Rightarrow>
                            if nm = [] then acc
                            else (fst acc,
                                  snd acc @ [JObj [(''name'', JStr nm), (''type'', JStr ''EXP''),
                                                   (''address'', json_opt_str (extract_address parts)),
                                                   (''raw'', JStr line)]]))
                  else acc))"

definition loader_parse_lines :: "string list \<Rightarrow> json list \<times> json list" where
  "loader_parse_lines ls = foldl (\<lambda>acc l. loader_line l acc) ([], []) ls"

definition loader_parse_output :: "string \<Rightarrow> json list \<times> json list" where
  "loader_parse_output output = loader_parse_lines (splitlines output)"

definition dump_loader_analyze ::
  "runner \<Rightarrow> string \<Rightarrow> int \<Rightarrow> string list list \<times> analysis_result" where
  "dump_loader_analyze run filepath timeout =
     (let cmd = [''dump'', ''-Tv'', filepath]
      in ([cmd],
          case run cmd timeout of
            Completed returncode stdout stderr \<Rightarrow>
              if returncode \<noteq> 0
              then failed_result ''dump-T'' (exit_error returncode stderr)
              else (let (imports, exports) = loader_parse_output stdout
                    in ok_result ''dump-T''
                         (JObj [(''imports'', JList imports),
                                (''exports'', JList exports),
                                (''import_count'', JInt (int (length imports))),
                                (''export_count'', JInt (int (length exports))),
                                (''raw'', JStr stdout)]))
          | TimeoutExpired \<Rightarrow> failed_result ''dump-T'' (timeout_error timeout)
          | FileNotFoundError msg \<Rightarrow> failed_result ''dump-T'' msg
          | Raised msg \<Rightarrow> failed_result ''dump-T'' msg))"


subsection \<open>The loader capture of the standalone script (xcoff\_snapshot.py)\<close>

text \<open>
  \<open>XCOFFSnapshot.run_command\<close> turns every fault into the exit status \<open>-1\<close>;
  \<open>capture_loader_symbols\<close> either records an error or hands stdout to its parser.
\<close>

definition snapshot_run_command :: "runner \<Rightarrow> string list \<Rightarrow> int \<times> string \<times> string" where
  "snapshot_run_command run cmd =
     (case run cmd 60 of
        Completed returncode stdout stderr \<Rightarrow> (returncode, stdout, stderr)
      | TimeoutExpired \<Rightarrow> (- 1, [], ''Command timed out'')
      | FileNotFoundError msg \<Rightarrow>
          (- 1, [], ''Command not found: '' @ (case cmd of [] \<Rightarrow> [] | c # rest \<Rightarrow> c))
      | Raised msg \<Rightarrow> (- 1, [], msg))"

definition capture_loader_symbols ::
  "runner \<Rightarrow> int \<Rightarrow> string \<Rightarrow> string list list \<times> (string + string)" where
  "capture_loader_symbols run bits filepath =
     (let x_flag = ''-X'' @ str_int bits;
          cmd1 = [''dump'', x_flag, ''-Tv'', filepath];
          (rc, stdout, stderr) = snapshot_run_command run cmd1
      in if rc \<noteq> 0
         then (let cmd2 = [''dump'', x_flag, ''-T'', filepath];
                   (rc2, stdout2, stderr2) = snapshot_run_command run cmd2
               in if rc2 \<noteq> 0 then ([cmd1, cmd2], Inl (''dump -T failed: '' @ stderr2))
                  else ([cmd1, cmd2], Inr stdout2))
         else ([cmd1], Inr stdout))"

subsection \<open>Properties of the analyzers\<close>

lemma split_aux_spaces:
  "list_all py_isspace ws \<Longrightarrow> py_split_aux cur ws = (if cur = [] then [] else [rev cur])"
  by (induction ws arbitrary: cur) auto

lemma split_aux_trailing:
  "list_all py_isspace ws \<Longrightarrow> py_split_aux cur (s @ ws) = py_split_aux cur s"
  by (induction s arbitrary: cur) (auto simp: split_aux_spaces)

lemma split_aux_leading:
  "py_split_aux [] (dropWhile py_isspace s) = py_split_aux [] s"
  by (induction s) auto

text \<open>Splitting a line into tokens does not see the whitespace that \<open>strip()\<close> removes.\<close>

lemma py_split_strip: "py_split (py_strip s) = py_split s"
proof -
  let ?t = "dropWhile py_isspace s"
  let ?ws = "rev (takeWhile py_isspace (rev ?t))"
  have ws: "list_all py_isspace ?ws"
    by (simp add: list_all_iff) (meson set_takeWhileD)
  have "py_split_aux [] (py_strip s @ ?ws) = py_split_aux [] (py_strip s)"
    using ws by (rule split_aux_trailing)
  moreover have "py_strip s @ ?ws = ?t"
    unfolding py_strip_def by (rule rstrip_decomp)
  ultimately show ?thesis
    by (simp add: py_split_def split_aux_leading)
qed

lemma loader_line_short:
  "length (py_split l) < 4 \<Longrightarrow> loader_line l acc = acc"
  by (simp add: loader_line_def Let_def py_split_strip)

lemma dump_loader_runs_one_command:
  "fst (dump_loader_analyze run fp t) = [[''dump'', ''-Tv'', fp]]"
  by (simp add: dump_loader_analyze_def Let_def)

text \<open>
  A target whose \<open>dump\<close> rejects the verbose flag and prints the loader table without it.
\<close>

definition rejects_verbose :: runner where
  "rejects_verbose cmd timeout =
     (if ''-Tv'' \<in> set cmd then Completed 1 [] ''dump: bad flag''
      else Completed 0 ''[0] 0x00000000 undef IMP DS EXTref libc.a(shr.o) printf'' [])"

text \<open>
  Claim C1 (defect in the code): on a non-zero exit of the verbose loader dump the analyzer
  is to retry once without the verbose flag and fail only if the retry fails too. On a
  target that rejects only the verbose flag, \<open>DumpLoaderAnalyzer.analyze\<close> runs the
  verbose command alone and returns a failed result, although the command without the flag
  succeeds; \<open>capture_loader_symbols\<close> of the standalone script does retry there.
\<close>

theorem dump_loader_analyze_no_retry:
  "rejects_verbose [''dump'', ''-T'', ''/usr/bin/ls''] 300 =
     Completed 0 ''[0] 0x00000000 undef IMP DS EXTref libc.a(shr.o) printf'' [] \<and>
   dump_loader_analyze rejects_verbose ''/usr/bin/ls'' 300 =
     ([[''dump'', ''-Tv'', ''/usr/bin/ls'']],
      \<lparr>analyzer_name = ''dump-T'', success = JBool False, data = JObj [],
       error = JStr ''dump: bad flag'', truncated = JBool False\<rparr>) \<and>
   capture_loader_symbols rejects_verbose 64 ''/usr/bin/ls'' =
     ([[''dump'', ''-X64'', ''-Tv'', ''/usr/bin/ls''], [''dump'', ''-X64'', ''-T'', ''/usr/bin/ls'']],
      Inr ''[0] 0x00000000 undef IMP DS EXTref libc.a(shr.o) printf'')"
  by code_simp

text \<open>
  Claim C9: when the identification command completes with a non-zero exit status and
  non-empty stdout, \<open>WhatAnalyzer.analyze\<close> succeeds with the strings parsed from that
  stdout; for a command that completes, the result is a failure exactly when the exit
  status is non-zero and stdout is empty.
\<close>

theorem what_analyze_completed:
  assumes "run [''what'', fp] t = Completed rc out err"
  shows "(rc \<noteq> 0 \<and> out \<noteq> [] \<longrightarrow>
            success (snd (what_analyze run fp t)) = JBool True \<and>
            data (snd (what_analyze run fp t)) =
              JObj [(''strings'', JList (map JStr (what_parse_output out))),
                    (''count'', JInt (int (length (what_parse_output out))))]) \<and>
         (success (snd (what_analyze run fp t)) = JBool False \<longleftrightarrow> rc \<noteq> 0 \<and> out = []) \<and>
         success (snd (what_analyze run fp t)) \<in> {JBool True, JBool False}"
  using assms by (simp add: what_analyze_def Let_def ok_result_def failed_result_def)

definition what_exits_2 :: runner where
  "what_exits_2 cmd timeout =
     Completed 2 (''/usr/bin/ls:'' @ [CHR 0x0A, CHR 0x09] @ ''libc 1.2 '') ''what: warning''"

theorem what_analyze_completed_witness:
  "what_exits_2 [''what'', ''/usr/bin/ls''] 300 =
     Completed 2 (''/usr/bin/ls:'' @ [CHR 0x0A, CHR 0x09] @ ''libc 1.2 '') ''what: warning'' \<and>
   success (snd (what_analyze what_exits_2 ''/usr/bin/ls'' 300)) = JBool True \<and>
   data (snd (what_analyze what_exits_2 ''/usr/bin/ls'' 300)) =
     JObj [(''strings'', JList [JStr ''libc 1.2'']), (''count'', JInt 1)]"
proof -
  have h: "what_exits_2 [''what'', ''/usr/bin/ls''] 300 =
     Completed 2 (''/usr/bin/ls:'' @ [CHR 0x0A, CHR 0x09] @ ''libc 1.2 '') ''what: warning''"
    by (simp add: what_exits_2_def)
  have p: "what_parse_output (''/usr/bin/ls:'' @ [CHR 0x0A, CHR 0x09] @ ''libc 1.2 '') =
             [''libc 1.2'']"
    by code_simp
  from what_analyze_completed [of what_exits_2 "''/usr/bin/ls''" 300, OF h] h p show ?thesis
    by simp
qed

text \<open>
  Claim C10: a line of the loader dump that splits into fewer than four
  whitespace-separated tokens leaves the lists of imports and exports as they were, whatever
  it contains: the parse of the whole output is the parse of the other lines.
\<close>

theorem loader_short_line_ignored:
  assumes "splitlines output = pre @ l # post" and "length (py_split l) < 4"
  shows "loader_line l acc = acc \<and>
         loader_parse_output output = loader_parse_lines (pre @ post)"
  using assms
  by (simp add: loader_parse_output_def loader_parse_lines_def loader_line_short)

definition short_marker_output :: string where
  "short_marker_output =
     ''[0] IMP printf'' @ [CHR 0x0A] @ ''[1] 0x10000128 .text EXP DS SECdef [noIMid] main''"

theorem loader_short_line_ignored_witness:
  "splitlines short_marker_output =
     [] @ ''[0] IMP printf'' # [''[1] 0x10000128 .text EXP DS SECdef [noIMid] main''] \<and>
   length (py_split ''[0] IMP printf'') < 4 \<and> sublist ''IMP'' ''[0] IMP printf'' \<and>
   loader_parse_output short_marker_output =
     loader_parse_lines ([] @ [''[1] 0x10000128 .text EXP DS SECdef [noIMid] main'']) \<and>
   fst (loader_parse_output short_marker_output) = []"
proof -
  have h1: "splitlines short_marker_output =
     [] @ ''[0] IMP printf'' # [''[1] 0x10000128 .text EXP DS SECdef [noIMid] main'']"
    by code_simp
  have h2: "length (py_split ''[0] IMP printf'') < 4"
    by code_simp
  have h3: "sublist ''IMP'' ''[0] IMP printf''"
    by code_simp
  have h4: "fst (loader_parse_lines
              ([] @ [''[1] 0x10000128 .text EXP DS SECdef [noIMid] main''])) = []"
    by code_simp
  from loader_short_line_ignored [OF h1 h2, of "([], [])"] h1 h2 h3 h4 show ?thesis
    by simp
qed


section \<open>Store: path mapping (storage.py)\<close>

definition filepath_to_relpath :: "string \<Rightarrow> string" where
  "filepath_to_relpath filepath =
     (let rel = py_lstrip_chars [CHR 0x5C] (py_lstrip_chars ''/'' filepath);
          rel = remove_colons rel
      in rel @ ''.json'')"

definition relpath_to_filepath :: "string \<Rightarrow> string" where
  "relpath_to_filepath relpath =
     (let fp = py_rstrip_chars ''.json'' relpath in ''/'' @ fp)"

text \<open>
  Claim C2 (defect in the code): the inverse mapping is meant to undo the forward mapping on a
  POSIX absolute path; the comment in the source gives \<open>usr/bin/ls.json -> /usr/bin/ls\<close>.
  \<open>rstrip(".json")\<close> removes every trailing character among \<open>.\<close>, \<open>j\<close>, \<open>s\<close>,
  \<open>o\<close>, \<open>n\<close>, so the final \<open>s\<close> of \<open>ls\<close> is lost as well.
\<close>

theorem relpath_roundtrip_usr_bin_ls:
  "filepath_to_relpath ''/usr/bin/ls'' = ''usr/bin/ls.json'' \<and>
   relpath_to_filepath (filepath_to_relpath ''/usr/bin/ls'') = ''/usr/bin/l''"
  by (simp add: relpath_to_filepath_def filepath_to_relpath_def py_lstrip_chars_def
      py_rstrip_chars_def remove_colons_def)


section \<open>Dynamic operations on JSON values\<close>

definition py_type_name :: "json \<Rightarrow> string" where
  "py_type_name v =
     (case v of JNull \<Rightarrow> ''NoneType'' | JBool b \<Rightarrow> ''bool'' | JInt i \<Rightarrow> ''int''
      | JStr s \<Rightarrow> ''str'' | JList xs \<Rightarrow> ''list'' | JObj kvs \<Rightarrow> ''dict'')"

text \<open>
  \<open>AttributeError t a\<close> stands for the message
  \<open>'t' object has no attribute 'a'\<close>.
\<close>

definition no_attribute :: "json \<Rightarrow> string \<Rightarrow> py_exception" where
  "no_attribute v attr = AttributeError (py_type_name v) attr"

text \<open>\<open>d.get(key, default)\<close>, \<open>d[key]\<close> and \<open>d.items()\<close>.\<close>

definition py_get :: "json \<Rightarrow> string \<Rightarrow> json \<Rightarrow> py_exception + json" where
  "py_get d key dflt =
     (case d of
        JObj kvs \<Rightarrow> Inr (case map_of kvs key of None \<Rightarrow> dflt | Some v \<Rightarrow> v)
      | _ \<Rightarrow> Inl (no_attribute d ''get''))"

definition py_getitem :: "json \<Rightarrow> string \<Rightarrow> py_exception + json" where
  "py_getitem d key =
     (case d of
        JObj kvs \<Rightarrow> (case map_of kvs key of None \<Rightarrow> Inl (KeyError key) | Some v \<Rightarrow> Inr v)
      | JList xs \<Rightarrow> Inl (TypeError ''list indices must be integers or slices, not str'')
      | JStr s \<Rightarrow> Inl (TypeError ''string indices must be integers'')
      | _ \<Rightarrow> Inl (TypeError (py_type_name d @ '' object is not subscriptable'')))"

definition py_items :: "json \<Rightarrow> py_exception + (string \<times> json) list" where
  "py_items d = (case d of JObj kvs \<Rightarrow> Inr kvs | _ \<Rightarrow> Inl (no_attribute d ''items''))"

section \<open>Snapshots (core.py)\<close>

record snapshot =
  filepath :: json
  timestamp :: json
  file_size :: json
  file_mtime :: json
  file_type :: json
  name :: json
  results :: "(string \<times> analysis_result) list"

definition result_to_dict :: "analysis_result \<Rightarrow> json" where
  "result_to_dict r =
     JObj [(''success'', success r), (''data'', data r), (''error'', error r),
           (''truncated'', truncated r)]"

definition to_dict :: "snapshot \<Rightarrow> json" where
  "to_dict s =
     JObj [(''version'', JStr ''1.0''),
           (''name'', name s),
           (''filepath'', filepath s),
           (''timestamp'', timestamp s),
           (''file_size'', file_size s),
           (''file_mtime'', file_mtime s),
           (''file_type'', file_type s),
           (''results'', JObj (map (\<lambda>(nm, r). (nm, result_to_dict r)) (results s)))]"

definition result_from_dict :: "string \<Rightarrow> json \<Rightarrow> py_exception + analysis_result" where
  "result_from_dict nm r =
     bind_exc (py_get r ''success'' (JBool False)) (\<lambda>su.
     bind_exc (py_get r ''data'' (JObj [])) (\<lambda>da.
     bind_exc (py_get r ''error'' JNull) (\<lambda>er.
     bind_exc (py_get r ''truncated'' (JBool False)) (\<lambda>tr.
       Inr \<lparr>analyzer_name = nm, success = su, data = da, error = er, truncated = tr\<rparr>))))"

text \<open>The loop of \<open>from_dict\<close> that fills \<open>results\<close>, one assignment per item.\<close>

fun results_from_items ::
  "(string \<times> json) list \<Rightarrow> (string \<times> analysis_result) list \<Rightarrow>
   py_exception + (string \<times> analysis_result) list" where
  "results_from_items [] acc = Inr acc"
| "results_from_items ((nm, r) # items) acc =
     bind_exc (result_from_dict nm r) (\<lambda>res.
       results_from_items items (AList.update nm res acc))"

definition from_dict :: "json \<Rightarrow> py_exception + snapshot" where
  "from_dict d =
     bind_exc (py_get d ''results'' (JObj [])) (\<lambda>rs.
     bind_exc (py_items rs) (\<lambda>items.
     bind_exc (results_from_items items []) (\<lambda>res.
     bind_exc (py_getitem d ''filepath'') (\<lambda>fp.
     bind_exc (py_getitem d ''timestamp'') (\<lambda>ts.
     bind_exc (py_getitem d ''file_size'') (\<lambda>fs.
     bind_exc (py_getitem d ''file_mtime'') (\<lambda>fm.
     bind_exc (py_get d ''file_type'' (JStr ''unknown'')) (\<lambda>ft.
     bind_exc (py_get d ''name'' JNull) (\<lambda>nm.
       Inr \<lparr>filepath = fp, timestamp = ts, file_size = fs, file_mtime = fm, file_type = ft,
            name = nm, results = res\<rparr>)))))))))"

section \<open>Store (storage.py)\<close>

text \<open>
  The file system is a map from paths to nodes: a directory, or a regular file with its
  content. A state is tree-shaped (the parent of every node is a directory) and the root
  and the working directory always exist. A record file holds either a JSON document,
  given by its value, or text that \<open>json.load\<close> rejects; \<open>json.dump\<close> followed by
  \<open>json.load\<close> returns the value written. Permissions, symbolic links, \<open>..\<close> components
  and other faults of the operating system are outside the model.
\<close>

datatype file_content = JsonDocument json | NotJson

datatype node = Directory | Regular file_content

type_synonym filesystem = "string \<rightharpoonup> node"

text \<open>\<open>s.split("/")\<close>.\<close>

fun split_slash_aux :: "string \<Rightarrow> string \<Rightarrow> string list" where
  "split_slash_aux cur [] = [rev cur]"
| "split_slash_aux cur (c # cs) =
     (if c = CHR ''/'' then rev cur # split_slash_aux [] cs else split_slash_aux (c # cur) cs)"

definition split_slash :: "string \<Rightarrow> string list" where
  "split_slash s = split_slash_aux [] s"

text \<open>
  The components of a path, without the empty ones and the \<open>.\<close> ones, and the path
  written from its components: the key of a path in the file system is the path as
  \<open>pathlib\<close> writes it.
\<close>

definition path_parts :: "string \<Rightarrow> string list" where
  "path_parts p = filter (\<lambda>c. c \<noteq> [] \<and> c \<noteq> ''.'') (split_slash p)"

definition path_str :: "bool \<Rightarrow> string list \<Rightarrow> string" where
  "path_str absolute parts = (if absolute then ''/'' else []) @ py_join ''/'' parts"

definition fs_key :: "string \<Rightarrow> string" where
  "fs_key p = path_str (prefix ''/'' p) (path_parts p)"

text \<open>The path itself preceded by its ancestors, from the outermost, and its parent.\<close>

definition ancestors :: "string \<Rightarrow> string list" where
  "ancestors p = map (path_str (prefix ''/'' p)) (tl (prefixes (path_parts p)))"

definition parent :: "string \<Rightarrow> string" where
  "parent p = path_str (prefix ''/'' p) (butlast (path_parts p))"

text \<open>
  \<open>Path.mkdir(parents=True, exist_ok=True)\<close>: the directories that are missing are
  created; a regular file in the way raises FileExistsError when it is the path itself and
  NotADirectoryError when it is an ancestor.
\<close>

fun mkdir_walk :: "string list \<Rightarrow> filesystem \<Rightarrow> py_exception + filesystem" where
  "mkdir_walk [] fs = Inr fs"
| "mkdir_walk (q # qs) fs =
     (case fs q of
        Some Directory \<Rightarrow> mkdir_walk qs fs
      | Some (Regular content) \<Rightarrow>
          Inl (OSError (if qs = [] then ''FileExistsError'' else ''NotADirectoryError''))
      | None \<Rightarrow> mkdir_walk qs (fs(q \<mapsto> Directory)))"

definition mkdir_parents :: "string \<Rightarrow> filesystem \<Rightarrow> py_exception + filesystem" where
  "mkdir_parents p fs = mkdir_walk (ancestors p) fs"

text \<open>\<open>open(p, "w")\<close> followed by the write of the whole content.\<close>

definition open_write :: "string \<Rightarrow> file_content \<Rightarrow> filesystem \<Rightarrow> py_exception + filesystem" where
  "open_write p content fs =
     (case fs (fs_key p) of
        Some Directory \<Rightarrow> Inl (OSError ''IsADirectoryError'')
      | _ \<Rightarrow>
          if length (path_parts p) \<le> 1 then Inr (fs(fs_key p \<mapsto> Regular content))
          else (case fs (parent p) of
                  Some Directory \<Rightarrow> Inr (fs(fs_key p \<mapsto> Regular content))
                | Some (Regular other) \<Rightarrow> Inl (OSError ''NotADirectoryError'')
                | None \<Rightarrow> Inl (OSError ''FileNotFoundError'')))"

text \<open>\<open>base / rel\<close> of \<open>pathlib\<close>: an absolute right operand replaces the left one.\<close>

definition path_join :: "string \<Rightarrow> string \<Rightarrow> string" where
  "path_join base rel = (if prefix ''/'' rel then rel else base @ ''/'' @ rel)"

definition snap_dir :: "string \<Rightarrow> string \<Rightarrow> string" where
  "snap_dir db_path nm = path_join (path_join db_path ''snapshots'') nm"

definition registry_path :: "string \<Rightarrow> string" where
  "registry_path db_path = path_join db_path ''registry.txt''"

text \<open>
  \<open>_update_registry\<close> reads the registry file when it exists and rewrites it. What the
  model keeps of it: it raises when the registry path is a directory, and it leaves a
  regular file whose text is not a JSON document.
\<close>

definition update_registry :: "string \<Rightarrow> filesystem \<Rightarrow> py_exception + filesystem" where
  "update_registry db_path fs =
     (case fs (fs_key (registry_path db_path)) of
        Some Directory \<Rightarrow> Inl (OSError ''IsADirectoryError'')
      | _ \<Rightarrow>
          bind_exc (mkdir_parents (parent (registry_path db_path)) fs) (\<lambda>fs'.
            open_write (registry_path db_path) NotJson fs'))"

text \<open>
  \<open>store\<close> returns the new state of the file system, the snapshot with its name set, and
  the path of the record. When it raises, only the exception is kept.
\<close>

definition store ::
  "string \<Rightarrow> filesystem \<Rightarrow> string \<Rightarrow> snapshot \<Rightarrow>
   py_exception + (filesystem \<times> snapshot \<times> string)" where
  "store db_path fs nm snap =
     bind_exc (mkdir_parents (snap_dir db_path nm) fs) (\<lambda>fs1.
       (let snap' = snap\<lparr>name := JStr nm\<rparr>
        in case filepath snap' of
             JStr fp \<Rightarrow>
               (let json_path = path_join (snap_dir db_path nm) (filepath_to_relpath fp)
                in bind_exc (mkdir_parents (parent json_path) fs1) (\<lambda>fs2.
                   bind_exc (open_write json_path (JsonDocument (to_dict snap')) fs2) (\<lambda>fs3.
                   bind_exc (update_registry db_path fs3) (\<lambda>fs4.
                     Inr (fs4, snap', json_path)))))
           | v \<Rightarrow> Inl (no_attribute v ''lstrip'')))"

definition json_load :: "file_content \<Rightarrow> py_exception + json" where
  "json_load content = (case content of JsonDocument d \<Rightarrow> Inr d | NotJson \<Rightarrow> Inl JSONDecodeError)"

text \<open>
  \<open>load\<close>: the \<open>except\<close> clause turns JSONDecodeError and KeyError into \<open>None\<close>; any
  other exception reaches the caller.
\<close>

definition load ::
  "string \<Rightarrow> filesystem \<Rightarrow> string \<Rightarrow> string \<Rightarrow> py_exception + snapshot option" where
  "load db_path fs nm fp =
     (let json_path = path_join (snap_dir db_path nm) (filepath_to_relpath fp)
      in case fs (fs_key json_path) of
           None \<Rightarrow> Inr None
         | Some Directory \<Rightarrow> Inl (OSError ''IsADirectoryError'')
         | Some (Regular content) \<Rightarrow>
             (case bind_exc (json_load content) from_dict of
                Inl JSONDecodeError \<Rightarrow> Inr None
              | Inl (KeyError k) \<Rightarrow> Inr None
              | Inl e \<Rightarrow> Inl e
              | Inr snap \<Rightarrow> Inr (Some snap)))"

definition captured_ls :: snapshot where
  "captured_ls =
     \<lparr>filepath = JStr ''/usr/bin/ls'', timestamp = JStr ''2024-05-01T10:00:00'',
      file_size = JInt 4096, file_mtime = JStr ''2024-04-30T09:00:00'',
      file_type = JStr ''xcoff32'', name = JNull,
      results =
        [(''what'', ok_result ''what'' (JObj [(''strings'', JList [JStr ''libc 1.2'']),
                                               (''count'', JInt 1)])),
         (''dump-T'', failed_result ''dump-T'' ''Exit code 1'')]\<rparr>"

subsection \<open>Properties of the store\<close>

lemma update_fresh_key:
  "k \<notin> fst ` set al \<Longrightarrow> AList.update k v al = al @ [(k, v)]"
  by (induction al) auto

lemma result_roundtrip:
  "analyzer_name r = k \<Longrightarrow> result_from_dict k (result_to_dict r) = Inr r"
  by (auto simp: result_from_dict_def result_to_dict_def py_get_def bind_exc_def)

lemma results_roundtrip:
  assumes "distinct (map fst rs)"
      and "\<forall>(k, r) \<in> set rs. analyzer_name r = k"
      and "fst ` set acc \<inter> fst ` set rs = {}"
  shows "results_from_items (map (\<lambda>(nm, r). (nm, result_to_dict r)) rs) acc = Inr (acc @ rs)"
  using assms
proof (induction rs arbitrary: acc)
  case Nil
  then show ?case by simp
next
  case (Cons kr rs)
  obtain k r where kr: "kr = (k, r)" by (cases kr)
  from Cons.prems kr have fresh: "k \<notin> fst ` set acc" and nm: "analyzer_name r = k"
    by auto
  have "fst ` set (acc @ [(k, r)]) \<inter> fst ` set rs = {}"
    using Cons.prems kr by (auto simp: image_iff)
  moreover have "distinct (map fst rs)" "\<forall>(k, r) \<in> set rs. analyzer_name r = k"
    using Cons.prems by auto
  ultimately have "results_from_items (map (\<lambda>(nm, r). (nm, result_to_dict r)) rs)
      (acc @ [(k, r)]) = Inr ((acc @ [(k, r)]) @ rs)"
    by (rule Cons.IH [rotated 2])
  then show ?case
    by (simp add: kr bind_exc_def result_roundtrip [OF nm] update_fresh_key [OF fresh])
qed

lemma from_dict_to_dict:
  assumes "distinct (map fst (results s))"
      and "\<forall>(k, r) \<in> set (results s). analyzer_name r = k"
  shows "from_dict (to_dict s) = Inr s"
proof -
  have "results_from_items (map (\<lambda>(nm, r). (nm, result_to_dict r)) (results s)) [] =
          Inr ([] @ results s)"
    using assms by (intro results_roundtrip) auto
  then show ?thesis
    by (simp add: from_dict_def to_dict_def py_get_def py_getitem_def py_items_def
        bind_exc_def)
qed

lemma bind_exc_Inr: "bind_exc m f = Inr y \<Longrightarrow> \<exists>x. m = Inr x \<and> f x = Inr y"
  by (cases m) (simp_all add: bind_exc_def)

text \<open>Creating directories and writing a file leave the other nodes as they are.\<close>

lemma mkdir_walk_keeps:
  "mkdir_walk qs fs = Inr fs' \<Longrightarrow> fs k = Some n \<Longrightarrow> fs' k = Some n"
proof (induction qs arbitrary: fs)
  case Nil
  then show ?case by simp
next
  case (Cons q qs)
  show ?case
  proof (cases "fs q")
    case None
    with Cons.prems have "mkdir_walk qs (fs(q \<mapsto> Directory)) = Inr fs'" by simp
    moreover from None Cons.prems have "(fs(q \<mapsto> Directory)) k = Some n" by auto
    ultimately show ?thesis by (rule Cons.IH)
  next
    case (Some nd)
    with Cons.prems have "nd = Directory" "mkdir_walk qs fs = Inr fs'"
      by (cases nd; simp)+
    with Cons.IH Cons.prems show ?thesis by blast
  qed
qed

lemma open_write_result:
  "open_write p content fs = Inr fs' \<Longrightarrow> fs' = fs(fs_key p \<mapsto> Regular content)"
  by (auto simp: open_write_def split: option.splits node.splits if_splits)

text \<open>The last character of a path is the last character of its key.\<close>

lemma split_slash_aux_nonempty: "split_slash_aux cur s \<noteq> []"
  by (induction s arbitrary: cur) auto

lemma split_slash_aux_snoc:
  "c \<noteq> CHR ''/'' \<Longrightarrow>
   split_slash_aux cur (s @ [c]) =
     butlast (split_slash_aux cur s) @ [last (split_slash_aux cur s) @ [c]]"
  by (induction s arbitrary: cur) (auto simp: split_slash_aux_nonempty)

lemma last_py_join:
  "xs \<noteq> [] \<Longrightarrow> last xs \<noteq> [] \<Longrightarrow> last (py_join sep xs) = last (last xs)"
proof -
  have aux: "ys \<noteq> [] \<Longrightarrow> last ys \<noteq> [] \<Longrightarrow>
      last (x @ concat (map (\<lambda>y. sep @ y) ys)) = last (last ys)" for ys x
  proof (induction ys arbitrary: x)
    case Nil
    then show ?case by simp
  next
    case (Cons y ys)
    show ?case
    proof (cases ys)
      case Nil
      with Cons.prems show ?thesis by simp
    next
      case (Cons z zs)
      with Cons.prems Cons.IH [of "x @ sep @ y"] show ?thesis by simp
    qed
  qed
  assume "xs \<noteq> []" "last xs \<noteq> []"
  then show ?thesis
    by (cases xs) (auto simp: py_join_def aux)
qed

lemma last_fs_key:
  assumes "c \<noteq> CHR ''/''" and "c \<noteq> CHR ''.''"
  shows "last (fs_key (s @ [c])) = c"
proof -
  let ?t = "last (split_slash_aux [] s) @ [c]"
  have sp: "split_slash (s @ [c]) = butlast (split_slash_aux [] s) @ [?t]"
    using assms(1) by (simp add: split_slash_def split_slash_aux_snoc)
  have keep: "?t \<noteq> [] \<and> ?t \<noteq> ''.''"
    using assms(2) by (cases "last (split_slash_aux [] s)") auto
  then have parts: "path_parts (s @ [c]) =
      filter (\<lambda>c. c \<noteq> [] \<and> c \<noteq> ''.'') (butlast (split_slash_aux [] s)) @ [?t]"
    unfolding path_parts_def sp by simp
  have "last (py_join ''/'' (path_parts (s @ [c]))) = c"
    unfolding parts by (subst last_py_join) simp_all
  moreover have "py_join ''/'' (path_parts (s @ [c])) \<noteq> []"
    unfolding parts by (cases "filter (\<lambda>c. c \<noteq> [] \<and> c \<noteq> ''.'') (butlast (split_slash_aux [] s))")
      (simp_all add: py_join_def)
  ultimately show ?thesis
    by (simp add: fs_key_def path_str_def)
qed

lemma record_key_not_registry:
  "fs_key (path_join base (filepath_to_relpath fp)) \<noteq> fs_key (registry_path db)"
proof -
  let ?stem = "remove_colons (py_lstrip_chars [CHR 0x5C] (py_lstrip_chars ''/'' fp)) @ ''.jso''"
  have rel: "filepath_to_relpath fp = ?stem @ [CHR ''n'']"
    by (simp add: filepath_to_relpath_def Let_def)
  have "path_join base (filepath_to_relpath fp) =
          (if prefix ''/'' (filepath_to_relpath fp) then ?stem else base @ ''/'' @ ?stem) @
          [CHR ''n'']"
    unfolding path_join_def by (simp add: rel)
  then have a: "last (fs_key (path_join base (filepath_to_relpath fp))) = CHR ''n''"
    using last_fs_key [of "CHR ''n''"] by simp
  have reg: "registry_path db = (db @ ''/registry.tx'') @ [CHR ''t'']"
    unfolding registry_path_def path_join_def by simp
  have b: "last (fs_key (registry_path db)) = CHR ''t''"
    unfolding reg by (rule last_fs_key) simp_all
  from a b show ?thesis by auto
qed

lemma update_registry_keeps:
  assumes "update_registry db fs = Inr fs'"
      and "fs k = Some n"
      and "k \<noteq> fs_key (registry_path db)"
  shows "fs' k = Some n"
proof -
  from assms(1) obtain fs1 where
    m: "mkdir_parents (parent (registry_path db)) fs = Inr fs1" and
    w: "open_write (registry_path db) NotJson fs1 = Inr fs'"
    by (auto simp: update_registry_def split: option.splits node.splits dest: bind_exc_Inr)
  from m assms(2) have "fs1 k = Some n"
    unfolding mkdir_parents_def by (rule mkdir_walk_keeps)
  with open_write_result [OF w] assms(3) show ?thesis by simp
qed

text \<open>
  Claim C3: for a snapshot whose results are keyed by analyzer name (each result carries
  the key it is stored under, the keys are distinct, the file path is a string), whenever
  \<open>store\<close> returns, \<open>load\<close> with the same name and file path returns the stored snapshot:
  its results equal the original's key for key and field for field.
\<close>

theorem store_load_roundtrip:
  assumes "filepath s = JStr fp"
      and "distinct (map fst (results s))"
      and "\<forall>(k, r) \<in> set (results s). analyzer_name r = k"
      and "store db fs nm s = Inr (fs', s', p)"
  shows "load db fs' nm fp = Inr (Some s') \<and> results s' = results s \<and>
         s' = s\<lparr>name := JStr nm\<rparr>"
proof -
  let ?s' = "s\<lparr>name := JStr nm\<rparr>"
  let ?p = "path_join (snap_dir db nm) (filepath_to_relpath fp)"
  let ?doc = "JsonDocument (to_dict ?s')"
  have st: "store db fs nm s =
      bind_exc (mkdir_parents (snap_dir db nm) fs) (\<lambda>fs1.
      bind_exc (mkdir_parents (parent ?p) fs1) (\<lambda>fs2.
      bind_exc (open_write ?p ?doc fs2) (\<lambda>fs3.
      bind_exc (update_registry db fs3) (\<lambda>fs4. Inr (fs4, ?s', ?p)))))"
    using assms(1) by (simp add: store_def Let_def)
  from assms(4) [unfolded st] obtain fs1 where
    "bind_exc (mkdir_parents (parent ?p) fs1) (\<lambda>fs2.
       bind_exc (open_write ?p ?doc fs2) (\<lambda>fs3.
       bind_exc (update_registry db fs3) (\<lambda>fs4. Inr (fs4, ?s', ?p)))) = Inr (fs', s', p)"
    by (blast dest: bind_exc_Inr)
  then obtain fs2 where
    "bind_exc (open_write ?p ?doc fs2) (\<lambda>fs3.
       bind_exc (update_registry db fs3) (\<lambda>fs4. Inr (fs4, ?s', ?p))) = Inr (fs', s', p)"
    by (blast dest: bind_exc_Inr)
  then obtain fs3 where
    w: "open_write ?p ?doc fs2 = Inr fs3" and
    "bind_exc (update_registry db fs3) (\<lambda>fs4. Inr (fs4, ?s', ?p)) = Inr (fs', s', p)"
    by (blast dest: bind_exc_Inr)
  then obtain fs4 where
    "update_registry db fs3 = Inr fs4" and "Inr (fs4, ?s', ?p) = (Inr (fs', s', p) ::
       py_exception + (filesystem \<times> snapshot \<times> string))"
    by (blast dest: bind_exc_Inr)
  then have r: "update_registry db fs3 = Inr fs'" and s': "s' = ?s'"
    by simp_all
  from open_write_result [OF w] have "fs3 (fs_key ?p) = Some (Regular ?doc)" by simp
  with r have at: "fs' (fs_key ?p) = Some (Regular ?doc)"
    using record_key_not_registry by (rule update_registry_keeps)
  have "from_dict (to_dict ?s') = Inr ?s'"
    using assms(2,3) by (intro from_dict_to_dict) auto
  with at have "load db fs' nm fp = Inr (Some ?s')"
    by (simp add: load_def Let_def json_load_def bind_exc_def)
  with s' show ?thesis by simp
qed

text \<open>An empty database directory, and the directories of one stored record.\<close>

definition db_dirs :: filesystem where
  "db_dirs = [''/db'' \<mapsto> Directory]"

definition record_dirs :: filesystem where
  "record_dirs =
     map_of (map (\<lambda>p. (p, Directory)) (ancestors ''/db/snapshots/v1/usr/bin''))"

lemma record_key_ls:
  "fs_key (path_join (snap_dir ''/db'' ''v1'') (filepath_to_relpath ''/usr/bin/ls'')) =
     ''/db/snapshots/v1/usr/bin/ls.json''"
  by code_simp

lemma store_captured_ls:
  "\<exists>fs'. store ''/db'' db_dirs ''v1'' captured_ls =
           Inr (fs', captured_ls\<lparr>name := JStr ''v1''\<rparr>, ''/db/snapshots/v1/usr/bin/ls.json'')"
proof -
  let ?doc = "JsonDocument (to_dict (captured_ls\<lparr>name := JStr ''v1''\<rparr>))"
  let ?fs1 = "db_dirs(''/db/snapshots'' \<mapsto> Directory, ''/db/snapshots/v1'' \<mapsto> Directory)"
  let ?fs2 = "?fs1(''/db/snapshots/v1/usr'' \<mapsto> Directory,
                   ''/db/snapshots/v1/usr/bin'' \<mapsto> Directory)"
  let ?fs3 = "?fs2(''/db/snapshots/v1/usr/bin/ls.json'' \<mapsto> Regular ?doc)"
  let ?fs4 = "?fs3(''/db/registry.txt'' \<mapsto> Regular NotJson)"
  have a1: "ancestors (snap_dir ''/db'' ''v1'') = [''/db'', ''/db/snapshots'', ''/db/snapshots/v1'']"
    by code_simp
  have p: "path_join (snap_dir ''/db'' ''v1'') (filepath_to_relpath ''/usr/bin/ls'') =
             ''/db/snapshots/v1/usr/bin/ls.json''"
    by code_simp
  have a2: "ancestors (parent ''/db/snapshots/v1/usr/bin/ls.json'') =
      [''/db'', ''/db/snapshots'', ''/db/snapshots/v1'', ''/db/snapshots/v1/usr'',
       ''/db/snapshots/v1/usr/bin'']"
    by code_simp
  have k: "fs_key ''/db/snapshots/v1/usr/bin/ls.json'' = ''/db/snapshots/v1/usr/bin/ls.json''"
    "parent ''/db/snapshots/v1/usr/bin/ls.json'' = ''/db/snapshots/v1/usr/bin''"
    "length (path_parts ''/db/snapshots/v1/usr/bin/ls.json'') = 6"
    by code_simp+
  have r: "fs_key (registry_path ''/db'') = ''/db/registry.txt''"
    "parent (registry_path ''/db'') = ''/db''"
    "ancestors ''/db'' = [''/db'']"
    "length (path_parts (registry_path ''/db'')) = 2"
    by code_simp+
  have f: "filepath (captured_ls\<lparr>name := JStr ''v1''\<rparr>) = JStr ''/usr/bin/ls''"
    by (simp add: captured_ls_def)
  have m1: "mkdir_parents (snap_dir ''/db'' ''v1'') db_dirs = Inr ?fs1"
    by (simp add: mkdir_parents_def a1 db_dirs_def)
  have m2: "mkdir_parents (parent ''/db/snapshots/v1/usr/bin/ls.json'') ?fs1 = Inr ?fs2"
    by (simp add: mkdir_parents_def a2 db_dirs_def)
  have w: "open_write ''/db/snapshots/v1/usr/bin/ls.json'' ?doc ?fs2 = Inr ?fs3"
    by (simp add: open_write_def k db_dirs_def)
  have m3: "mkdir_parents ''/db'' ?fs3 = Inr ?fs3"
    by (simp add: mkdir_parents_def r db_dirs_def)
  have w2: "open_write (registry_path ''/db'') NotJson ?fs3 = Inr ?fs4"
    by (simp add: open_write_def r db_dirs_def)
  have lk: "?fs3 ''/db/registry.txt'' = None"
    by (simp add: db_dirs_def)
  have u: "update_registry ''/db'' ?fs3 = Inr ?fs4"
    unfolding update_registry_def r(1,2) lk by (simp add: m3 w2 bind_exc_def)
  have "store ''/db'' db_dirs ''v1'' captured_ls =
          Inr (?fs4, captured_ls\<lparr>name := JStr ''v1''\<rparr>, ''/db/snapshots/v1/usr/bin/ls.json'')"
    unfolding store_def Let_def f by (simp add: p m1 m2 w u bind_exc_def)
  then show ?thesis by blast
qed

theorem store_load_roundtrip_witness:
  "filepath captured_ls = JStr ''/usr/bin/ls'' \<and>
   distinct (map fst (results captured_ls)) \<and>
   list_all (\<lambda>(k, r). analyzer_name r = k) (results captured_ls) \<and>
   (\<exists>fs'. store ''/db'' db_dirs ''v1'' captured_ls =
             Inr (fs', captured_ls\<lparr>name := JStr ''v1''\<rparr>,
                  ''/db/snapshots/v1/usr/bin/ls.json'') \<and>
          load ''/db'' fs' ''v1'' ''/usr/bin/ls'' =
             Inr (Some (captured_ls\<lparr>name := JStr ''v1''\<rparr>)) \<and>
          results (captured_ls\<lparr>name := JStr ''v1''\<rparr>) = results captured_ls)"
proof -
  have h1: "filepath captured_ls = JStr ''/usr/bin/ls''"
    by (simp add: captured_ls_def)
  have h2: "distinct (map fst (results captured_ls))"
    by (simp add: captured_ls_def)
  have h3: "list_all (\<lambda>(k, r). analyzer_name r = k) (results captured_ls)"
    by (simp add: captured_ls_def ok_result_def failed_result_def)
  then have h3': "\<forall>(k, r) \<in> set (results captured_ls). analyzer_name r = k"
    by (simp only: list_all_iff)
  from store_captured_ls obtain fs' where
    h4: "store ''/db'' db_dirs ''v1'' captured_ls =
           Inr (fs', captured_ls\<lparr>name := JStr ''v1''\<rparr>, ''/db/snapshots/v1/usr/bin/ls.json'')"
    by blast
  from store_load_roundtrip [OF h1 h2 h3' h4] h1 h2 h3 h4 show ?thesis
    by auto
qed

text \<open>
  \<open>store\<close> raises when a record file stands where a directory of the record path is
  needed, or a directory stands at the record path itself.
\<close>

lemma store_blocked_by_file:
  "store ''/db'' (db_dirs(''/db/snapshots'' \<mapsto> Directory, ''/db/snapshots/v1'' \<mapsto> Directory,
      ''/db/snapshots/v1/usr'' \<mapsto> Regular NotJson)) ''v1'' captured_ls =
     Inl (OSError ''NotADirectoryError'')"
proof -
  have a1: "ancestors (snap_dir ''/db'' ''v1'') = [''/db'', ''/db/snapshots'', ''/db/snapshots/v1'']"
    by code_simp
  have p: "path_join (snap_dir ''/db'' ''v1'') (filepath_to_relpath ''/usr/bin/ls'') =
             ''/db/snapshots/v1/usr/bin/ls.json''"
    by code_simp
  have a2: "ancestors (parent ''/db/snapshots/v1/usr/bin/ls.json'') =
      [''/db'', ''/db/snapshots'', ''/db/snapshots/v1'', ''/db/snapshots/v1/usr'',
       ''/db/snapshots/v1/usr/bin'']"
    by code_simp
  have f: "filepath captured_ls = JStr ''/usr/bin/ls''"
    by (simp add: captured_ls_def)
  show ?thesis
    by (simp add: store_def Let_def f p mkdir_parents_def a1 a2 db_dirs_def bind_exc_def)
qed

text \<open>
  Claim C8 (defect in the code): a stored record that is malformed is to load as absent,
  without an exception. \<open>load\<close> catches JSONDecodeError and KeyError only. A record that is
  valid JSON and lacks the snapshot fields, \<open>{"version": "1.0", "results": []}\<close>, makes
  \<open>from_dict\<close> call \<open>items\<close> on a list: the AttributeError reaches the caller, where an
  absent record and a record that is not JSON give \<open>None\<close>.
\<close>

theorem load_malformed_record_raises:
  "load ''/db''
     (record_dirs(''/db/snapshots/v1/usr/bin/ls.json'' \<mapsto>
        Regular (JsonDocument (JObj [(''version'', JStr ''1.0''), (''results'', JList [])]))))
     ''v1'' ''/usr/bin/ls'' = Inl (AttributeError ''list'' ''items'') \<and>
   load ''/db'' (record_dirs(''/db/snapshots/v1/usr/bin/ls.json'' \<mapsto> Regular NotJson))
     ''v1'' ''/usr/bin/ls'' = Inr None \<and>
   load ''/db'' record_dirs ''v1'' ''/usr/bin/ls'' = Inr None"
proof -
  have d: "record_dirs ''/db/snapshots/v1/usr/bin/ls.json'' = None"
    by code_simp
  show ?thesis
    by (simp add: load_def Let_def record_key_ls d json_load_def from_dict_def py_get_def
        py_items_def bind_exc_def no_attribute_def py_type_name_def)
qed


section \<open>Comparison engine (core.py)\<close>

subsection \<open>Equality, iteration and sets of JSON values\<close>

text \<open>
  Python's \<open>==\<close> on these values: \<open>True\<close> and \<open>False\<close> equal \<open>1\<close> and \<open>0\<close>, lists are
  equal element by element, and dictionaries are equal when they have the same keys with
  equal values, whatever the insertion order. \<open>py_norm\<close> gives every value a canonical
  form, equal for exactly the values that \<open>==\<close> identifies.
\<close>

fun py_norm :: "json \<Rightarrow> json" where
  "py_norm JNull = JNull"
| "py_norm (JBool b) = JInt (if b then 1 else 0)"
| "py_norm (JInt i) = JInt i"
| "py_norm (JStr s) = JStr s"
| "py_norm (JList xs) = JList (map py_norm xs)"
| "py_norm (JObj kvs) = JObj (sort_key fst (map (\<lambda>(k, v). (k, py_norm v)) kvs))"

definition py_eq :: "json \<Rightarrow> json \<Rightarrow> bool" where
  "py_eq a b = (py_norm a = py_norm b)"

definition py_ne :: "json \<Rightarrow> json \<Rightarrow> bool" where
  "py_ne a b = (\<not> py_eq a b)"

definition hashable :: "json \<Rightarrow> bool" where
  "hashable v = (case v of JList xs \<Rightarrow> False | JObj kvs \<Rightarrow> False | _ \<Rightarrow> True)"

definition unhashable :: "json \<Rightarrow> py_exception" where
  "unhashable v = TypeError (''unhashable type: '' @ py_type_name v)"

text \<open>
  Iterating over a value: the elements of a list, the characters of a string, the keys of a
  dictionary; any other value is not iterable.
\<close>

definition py_iter :: "json \<Rightarrow> py_exception + json list" where
  "py_iter v =
     (case v of
        JList xs \<Rightarrow> Inr xs
      | JStr s \<Rightarrow> Inr (map (\<lambda>c. JStr [c]) s)
      | JObj kvs \<Rightarrow> Inr (map (\<lambda>(k, v). JStr k) kvs)
      | _ \<Rightarrow> Inl (TypeError (py_type_name v @ '' object is not iterable'')))"

text \<open>
  A Python set of hashable values is the list of their canonical forms without
  repetition. Python lists the elements of a set in an unspecified order; here they are
  listed as first seen.
\<close>

fun set_of_values :: "json list \<Rightarrow> py_exception + json list" where
  "set_of_values [] = Inr []"
| "set_of_values (x # xs) =
     (if hashable x
      then bind_exc (set_of_values xs) (\<lambda>rest. Inr (List.insert (py_norm x) rest))
      else Inl (unhashable x))"

definition set_minus :: "json list \<Rightarrow> json list \<Rightarrow> json list" where
  "set_minus xs ys = filter (\<lambda>x. x \<notin> set ys) xs"

subsection \<open>Diff payloads\<close>

datatype section_change =
    SecAdded json
  | SecRemoved json
  | SecModified json json

text \<open>
  The dictionaries that \<open>compare\<close> stores in \<open>analyzer_diffs\<close>:
  \<open>{"file_size": {"old", "new"}}\<close>, \<open>{"status": s}\<close>, \<open>{"added", "removed", "unchanged"}\<close>,
  the section changes keyed by section name, \<open>{"imports"?, "exports"?}\<close> with their
  \<open>{"added", "removed"}\<close>, and \<open>{"changed": True, "old", "new"}\<close>.
\<close>

datatype diff_payload =
    MetadataDiff json json
  | StatusDiff string
  | WhatDiff "json list" "json list" nat
  | SectionsDiff "(json \<times> section_change) list"
  | LoaderDiff "(json list \<times> json list) option" "(json list \<times> json list) option"
  | GenericDiff json json

definition payload_truthy :: "diff_payload \<Rightarrow> bool" where
  "payload_truthy d =
     (case d of
        SectionsDiff changes \<Rightarrow> changes \<noteq> []
      | LoaderDiff imports exports \<Rightarrow> imports \<noteq> None \<or> exports \<noteq> None
      | _ \<Rightarrow> True)"

definition strings_set :: "json \<Rightarrow> py_exception + json list" where
  "strings_set d =
     bind_exc (py_get d ''strings'' (JList [])) (\<lambda>v.
     bind_exc (py_iter v) set_of_values)"

definition diff_what :: "json \<Rightarrow> json \<Rightarrow> py_exception + diff_payload option" where
  "diff_what data1 data2 =
     bind_exc (strings_set data1) (\<lambda>strings1.
     bind_exc (strings_set data2) (\<lambda>strings2.
       (let added = set_minus strings2 strings1;
            removed = set_minus strings1 strings2
        in if added \<noteq> [] \<or> removed \<noteq> []
           then Inr (Some (WhatDiff added removed
                             (length (filter (\<lambda>x. x \<in> set strings2) strings1))))
           else Inr None)))"

text \<open>The dictionary comprehension \<open>{s["name"]: s for s in ...}\<close>.\<close>

fun sections_by_name :: "json list \<Rightarrow> (json \<times> json) list \<Rightarrow> py_exception + (json \<times> json) list" where
  "sections_by_name [] acc = Inr acc"
| "sections_by_name (s # ss) acc =
     bind_exc (py_getitem s ''name'') (\<lambda>k.
       if hashable k then sections_by_name ss (AList.update (py_norm k) s acc)
       else Inl (unhashable k))"

definition sections_dict :: "json \<Rightarrow> py_exception + (json \<times> json) list" where
  "sections_dict d =
     bind_exc (py_get d ''sections'' (JList [])) (\<lambda>v.
     bind_exc (py_iter v) (\<lambda>ss. sections_by_name ss []))"

definition section_change_of :: "(json \<times> json) list \<Rightarrow> (json \<times> json) list \<Rightarrow> json \<Rightarrow>
    (json \<times> section_change) option" where
  "section_change_of secs1 secs2 nm =
     (case map_of secs1 nm of
        None \<Rightarrow> Some (nm, SecAdded (case map_of secs2 nm of None \<Rightarrow> JNull | Some s2 \<Rightarrow> s2))
      | Some s1 \<Rightarrow>
          (case map_of secs2 nm of
             None \<Rightarrow> Some (nm, SecRemoved s1)
           | Some s2 \<Rightarrow> if py_ne s1 s2 then Some (nm, SecModified s1 s2) else None))"

definition diff_sections :: "json \<Rightarrow> json \<Rightarrow> py_exception + diff_payload option" where
  "diff_sections data1 data2 =
     bind_exc (sections_dict data1) (\<lambda>secs1.
     bind_exc (sections_dict data2) (\<lambda>secs2.
       (let all_names = remdups (map fst secs1 @ map fst secs2);
            changes = List.map_filter (section_change_of secs1 secs2) all_names
        in if changes \<noteq> [] then Inr (Some (SectionsDiff changes)) else Inr None)))"

text \<open>\<open>set(s.get("name", "") for s in data.get(key, []))\<close>.\<close>

fun symbol_names :: "json list \<Rightarrow> py_exception + json list" where
  "symbol_names [] = Inr []"
| "symbol_names (s # ss) =
     bind_exc (py_get s ''name'' (JStr [])) (\<lambda>n.
       if hashable n
       then bind_exc (symbol_names ss) (\<lambda>rest. Inr (List.insert (py_norm n) rest))
       else Inl (unhashable n))"

definition names_set :: "json \<Rightarrow> string \<Rightarrow> py_exception + json list" where
  "names_set d key =
     bind_exc (py_get d key (JList [])) (\<lambda>v.
     bind_exc (py_iter v) symbol_names)"

definition names_change :: "json list \<Rightarrow> json list \<Rightarrow> (json list \<times> json list) option" where
  "names_change old new =
     (if set old \<noteq> set new then Some (set_minus new old, set_minus old new) else None)"

definition diff_loader :: "json \<Rightarrow> json \<Rightarrow> py_exception + diff_payload option" where
  "diff_loader data1 data2 =
     bind_exc (names_set data1 ''imports'') (\<lambda>imp1.
     bind_exc (names_set data2 ''imports'') (\<lambda>imp2.
     bind_exc (names_set data1 ''exports'') (\<lambda>exp1.
     bind_exc (names_set data2 ''exports'') (\<lambda>exp2.
       (let changes = LoaderDiff (names_change imp1 imp2) (names_change exp1 exp2)
        in if payload_truthy changes then Inr (Some changes) else Inr None)))))"

definition diff_data :: "string \<Rightarrow> json \<Rightarrow> json \<Rightarrow> py_exception + diff_payload option" where
  "diff_data analyzer data1 data2 =
     (if analyzer = ''what'' then diff_what data1 data2
      else if analyzer = ''dump-h'' then diff_sections data1 data2
      else if analyzer = ''dump-T'' then diff_loader data1 data2
      else if py_ne data1 data2 then Inr (Some (GenericDiff data1 data2))
      else Inr None)"

subsection \<open>The summary\<close>

definition payload_has_key :: "diff_payload \<Rightarrow> string \<Rightarrow> bool" where
  "payload_has_key d key =
     (case d of
        MetadataDiff old new \<Rightarrow> key = ''file_size''
      | StatusDiff s \<Rightarrow> key = ''status''
      | WhatDiff added removed unchanged \<Rightarrow> key \<in> set [''added'', ''removed'', ''unchanged'']
      | SectionsDiff changes \<Rightarrow> JStr key \<in> fst ` set changes
      | LoaderDiff imports exports \<Rightarrow>
          (key = ''imports'' \<and> imports \<noteq> None) \<or> (key = ''exports'' \<and> exports \<noteq> None)
      | GenericDiff old new \<Rightarrow> key \<in> set [''changed'', ''old'', ''new''])"

definition change_len :: "section_change \<Rightarrow> nat" where
  "change_len c = (case c of SecAdded s \<Rightarrow> 2 | SecRemoved s \<Rightarrow> 2 | SecModified s1 s2 \<Rightarrow> 3)"

text \<open>\<open>len(diff[key])\<close>, where \<open>key\<close> is \<open>added\<close> or \<open>removed\<close> and is a key of \<open>diff\<close>.\<close>

definition payload_len_at :: "diff_payload \<Rightarrow> string \<Rightarrow> nat" where
  "payload_len_at d key =
     (case d of
        WhatDiff added removed unchanged \<Rightarrow>
          (if key = ''added'' then length added else length removed)
      | SectionsDiff changes \<Rightarrow>
          (case map_of changes (JStr key) of None \<Rightarrow> 0 | Some c \<Rightarrow> change_len c)
      | _ \<Rightarrow> 0)"

text \<open>
  One fragment of the summary. The text of a whole section change (written when a section
  is itself named \<open>status\<close>) is Python's rendering of a dictionary, a parameter here.
\<close>

definition summary_part :: "(section_change \<Rightarrow> string) \<Rightarrow> string \<Rightarrow> diff_payload \<Rightarrow> string" where
  "summary_part render nm d =
     (if nm = ''_metadata'' then ''file size changed''
      else if payload_has_key d ''added'' \<and> payload_has_key d ''removed''
      then nm @ '': +'' @ str_nat (payload_len_at d ''added'') @ '' -'' @
           str_nat (payload_len_at d ''removed'')
      else if payload_has_key d ''status''
      then nm @ '': '' @
           (case d of
              StatusDiff s \<Rightarrow> s
            | SectionsDiff changes \<Rightarrow>
                (case map_of changes (JStr ''status'') of None \<Rightarrow> [] | Some c \<Rightarrow> render c)
            | _ \<Rightarrow> [])
      else nm @ '': changed'')"

definition build_summary ::
  "(section_change \<Rightarrow> string) \<Rightarrow> (string \<times> diff_payload) list \<Rightarrow> string" where
  "build_summary render diffs =
     (if diffs = [] then ''No differences''
      else (let parts = map (\<lambda>(nm, d). summary_part render nm d) diffs
            in if parts \<noteq> [] then py_join ''; '' parts else ''differences found''))"

subsection \<open>compare\<close>

record snapshot_comparison =
  filepath1 :: json
  filepath2 :: json
  has_differences :: bool
  summary :: string
  analyzer_diffs :: "(string \<times> diff_payload) list"

text \<open>The entry, if any, that one iteration of the loop of \<open>compare\<close> stores for a name.\<close>

definition analyzer_entry ::
  "snapshot \<Rightarrow> snapshot \<Rightarrow> string \<Rightarrow> py_exception + diff_payload option" where
  "analyzer_entry snap1 snap2 nm =
     (case map_of (results snap1) nm of
        None \<Rightarrow> Inr (Some (StatusDiff ''added''))
      | Some r1 \<Rightarrow>
          (case map_of (results snap2) nm of
             None \<Rightarrow> Inr (Some (StatusDiff ''removed''))
           | Some r2 \<Rightarrow>
               if py_ne (data r1) (data r2)
               then bind_exc (diff_data nm (data r1) (data r2)) (\<lambda>diff.
                      case diff of
                        None \<Rightarrow> Inr None
                      | Some d \<Rightarrow> if payload_truthy d then Inr (Some d) else Inr None)
               else Inr None))"

fun compare_loop ::
  "string list \<Rightarrow> snapshot \<Rightarrow> snapshot \<Rightarrow> (string \<times> diff_payload) list \<times> bool \<Rightarrow>
   py_exception + ((string \<times> diff_payload) list \<times> bool)" where
  "compare_loop [] snap1 snap2 st = Inr st"
| "compare_loop (nm # names) snap1 snap2 st =
     bind_exc (analyzer_entry snap1 snap2 nm) (\<lambda>entry.
       case entry of
         None \<Rightarrow> compare_loop names snap1 snap2 st
       | Some d \<Rightarrow> compare_loop names snap1 snap2 (AList.update nm d (fst st), True))"

definition analyzer_names :: "snapshot \<Rightarrow> string set" where
  "analyzer_names snap = set (map fst (results snap))"

text \<open>
  \<open>compare\<close>, with the order in which the loop visits the set \<open>all_analyzers\<close> given as
  a list: Python leaves the iteration order of a set unspecified.
\<close>

definition compare_in ::
  "(section_change \<Rightarrow> string) \<Rightarrow> string list \<Rightarrow> snapshot \<Rightarrow> snapshot \<Rightarrow>
   py_exception + snapshot_comparison" where
  "compare_in render all_analyzers snap1 snap2 =
     (let st0 = (if py_ne (file_size snap1) (file_size snap2)
                 then ([(''_metadata'', MetadataDiff (file_size snap1) (file_size snap2))], True)
                 else ([], False))
      in bind_exc (compare_loop all_analyzers snap1 snap2 st0) (\<lambda>(diffs, has_diff).
           Inr \<lparr>filepath1 = filepath snap1, filepath2 = filepath snap2,
                has_differences = has_diff, summary = build_summary render diffs,
                analyzer_diffs = diffs\<rparr>))"

definition compare ::
  "(section_change \<Rightarrow> string) \<Rightarrow> snapshot \<Rightarrow> snapshot \<Rightarrow> py_exception + snapshot_comparison" where
  "compare render snap1 snap2 =
     compare_in render (remdups (map fst (results snap1) @ map fst (results snap2)))
       snap1 snap2"


subsection \<open>Properties of the comparison\<close>

lemma py_eq_refl: "py_eq a a"
  by (simp add: py_eq_def)

lemma py_ne_sym: "py_ne a b = py_ne b a"
  by (auto simp: py_ne_def py_eq_def)

lemma analyzer_entry_same:
  assumes "nm \<in> analyzer_names s"
  shows "analyzer_entry s s nm = Inr None"
proof -
  from assms obtain r where "map_of (results s) nm = Some r"
    by (cases "map_of (results s) nm") (auto simp: analyzer_names_def map_of_eq_None_iff)
  then show ?thesis
    by (simp add: analyzer_entry_def py_ne_def py_eq_refl)
qed

lemma compare_loop_same:
  "set ns \<subseteq> analyzer_names s \<Longrightarrow> compare_loop ns s s st = Inr st"
  by (induction ns) (auto simp: analyzer_entry_same bind_exc_def)

text \<open>
  Claim C4: a snapshot compared with itself has no differences: the diff map is empty and
  the summary is \<open>No differences\<close>, in whatever order the analyzer names are visited.
\<close>

theorem compare_same_snapshot:
  assumes "set ns = analyzer_names s \<union> analyzer_names s"
  shows "compare_in render ns s s =
           Inr \<lparr>filepath1 = filepath s, filepath2 = filepath s, has_differences = False,
                summary = ''No differences'', analyzer_diffs = []\<rparr>"
proof -
  have "compare_loop ns s s ([], False) = Inr ([], False)"
    using assms by (intro compare_loop_same) simp
  then show ?thesis
    by (simp add: compare_in_def py_ne_def py_eq_refl bind_exc_def build_summary_def)
qed

lemma compare_loop_raises:
  "\<exists>n \<in> set ns. isl (analyzer_entry a b n) \<Longrightarrow> isl (compare_loop ns a b st)"
proof (induction ns arbitrary: st)
  case Nil
  then show ?case by simp
next
  case (Cons nm ns)
  show ?case
  proof (cases "analyzer_entry a b nm")
    case (Inl e)
    then show ?thesis by (simp add: bind_exc_def)
  next
    case (Inr entry)
    with Cons.prems have "\<exists>n \<in> set ns. isl (analyzer_entry a b n)" by auto
    then have "isl (compare_loop ns a b st')" for st'
      by (rule Cons.IH)
    with Inr show ?thesis
      by (cases entry) (simp_all add: bind_exc_def)
  qed
qed

definition entry_at :: "snapshot \<Rightarrow> snapshot \<Rightarrow> string list \<Rightarrow> (string \<rightharpoonup> diff_payload) \<Rightarrow> string \<rightharpoonup> diff_payload" where
  "entry_at a b ns m n =
     (if n \<in> set ns
      then (case analyzer_entry a b n of Inr (Some d) \<Rightarrow> Some d | _ \<Rightarrow> m n)
      else m n)"

lemma compare_loop_returns:
  "\<forall>n \<in> set ns. \<not> isl (analyzer_entry a b n) \<Longrightarrow>
   \<exists>diffs flag. compare_loop ns a b st = Inr (diffs, flag) \<and>
      map_of diffs = entry_at a b ns (map_of (fst st))"
proof (induction ns arbitrary: st)
  case Nil
  then show ?case by (cases st) (auto simp: entry_at_def)
next
  case (Cons nm ns)
  then obtain entry where e: "analyzer_entry a b nm = Inr entry"
    by (cases "analyzer_entry a b nm") auto
  from Cons.prems have rest: "\<forall>n \<in> set ns. \<not> isl (analyzer_entry a b n)" by simp
  show ?case
  proof (cases entry)
    case None
    from Cons.IH [OF rest, of st] obtain diffs flag where
      l: "compare_loop ns a b st = Inr (diffs, flag)" and
      m: "map_of diffs = entry_at a b ns (map_of (fst st))" by blast
    have "entry_at a b ns (map_of (fst st)) = entry_at a b (nm # ns) (map_of (fst st))"
      using e None by (auto simp: entry_at_def fun_eq_iff)
    with l m e None show ?thesis by (simp add: bind_exc_def)
  next
    case (Some d)
    let ?st = "(AList.update nm d (fst st), True)"
    from Cons.IH [OF rest, of ?st] obtain diffs flag where
      l: "compare_loop ns a b ?st = Inr (diffs, flag)" and
      m: "map_of diffs = entry_at a b ns (map_of (fst ?st))" by blast
    have "entry_at a b ns (map_of (fst ?st)) = entry_at a b (nm # ns) (map_of (fst st))"
      using e Some by (auto simp: entry_at_def fun_eq_iff update_conv' split: sum.splits option.splits)
    with l m e Some show ?thesis by (simp add: bind_exc_def)
  qed
qed

definition is_data_diff :: "diff_payload \<Rightarrow> bool" where
  "is_data_diff d = (case d of MetadataDiff old new \<Rightarrow> False | StatusDiff s \<Rightarrow> False | _ \<Rightarrow> True)"

text \<open>What a diff routine reports: an exception, nothing, or a non-empty payload.\<close>

definition reports :: "py_exception + diff_payload option \<Rightarrow> bool" where
  "reports res = (\<exists>d. res = Inr (Some d) \<and> payload_truthy d)"

lemma diff_what_sym:
  "isl (diff_what d1 d2) = isl (diff_what d2 d1) \<and>
   reports (diff_what d1 d2) = reports (diff_what d2 d1)"
  by (cases "strings_set d1"; cases "strings_set d2")
    (auto simp: diff_what_def bind_exc_def Let_def reports_def payload_truthy_def)

lemma section_change_none:
  "section_change_of secs1 secs2 n = None \<longleftrightarrow>
     (\<exists>s1 s2. map_of secs1 n = Some s1 \<and> map_of secs2 n = Some s2 \<and> \<not> py_ne s1 s2)"
  by (auto simp: section_change_of_def split: option.splits)

lemma section_change_none_sym:
  "section_change_of secs1 secs2 n = None \<longleftrightarrow> section_change_of secs2 secs1 n = None"
  unfolding section_change_none using py_ne_sym by blast

lemma map_filter_empty: "List.map_filter f xs = [] \<longleftrightarrow> (\<forall>x \<in> set xs. f x = None)"
  by (induction xs) (auto simp: List.map_filter_simps split: option.splits)

lemma diff_sections_sym:
  "isl (diff_sections d1 d2) = isl (diff_sections d2 d1) \<and>
   reports (diff_sections d1 d2) = reports (diff_sections d2 d1)"
proof (cases "sections_dict d1")
  case (Inl e)
  then show ?thesis
    by (cases "sections_dict d2") (auto simp: diff_sections_def bind_exc_def reports_def)
next
  case a: (Inr secs1)
  show ?thesis
  proof (cases "sections_dict d2")
    case (Inl e)
    with a show ?thesis
      by (auto simp: diff_sections_def bind_exc_def reports_def)
  next
    case b: (Inr secs2)
    have "(List.map_filter (section_change_of secs1 secs2)
             (remdups (map fst secs1 @ map fst secs2)) = []) =
          (List.map_filter (section_change_of secs2 secs1)
             (remdups (map fst secs2 @ map fst secs1)) = [])"
      unfolding map_filter_empty using section_change_none_sym by auto
    with a b show ?thesis
      by (auto simp: diff_sections_def bind_exc_def Let_def reports_def payload_truthy_def)
  qed
qed

lemma names_change_sym: "(names_change xs ys = None) = (names_change ys xs = None)"
  by (auto simp: names_change_def)

lemma diff_loader_sym:
  "isl (diff_loader d1 d2) = isl (diff_loader d2 d1) \<and>
   reports (diff_loader d1 d2) = reports (diff_loader d2 d1)"
proof -
  have t: "payload_truthy (LoaderDiff (names_change i1 i2) (names_change e1 e2)) =
           payload_truthy (LoaderDiff (names_change i2 i1) (names_change e2 e1))"
    for i1 i2 e1 e2
    using names_change_sym [of i1 i2] names_change_sym [of e1 e2]
    by (auto simp: payload_truthy_def)
  show ?thesis
    using t
    by (cases "names_set d1 ''imports''"; cases "names_set d2 ''imports''";
        cases "names_set d1 ''exports''"; cases "names_set d2 ''exports''")
      (simp_all add: diff_loader_def bind_exc_def Let_def reports_def)
qed

lemma diff_data_sym:
  "isl (diff_data nm d1 d2) = isl (diff_data nm d2 d1) \<and>
   reports (diff_data nm d1 d2) = reports (diff_data nm d2 d1)"
  using diff_what_sym [of d1 d2] diff_sections_sym [of d1 d2] diff_loader_sym [of d1 d2]
    py_ne_sym [of d1 d2]
  by (auto simp: diff_data_def reports_def payload_truthy_def)

lemma diff_data_is_data_diff:
  "diff_data nm d1 d2 = Inr (Some d) \<Longrightarrow> is_data_diff d"
  by (auto simp: diff_data_def diff_what_def diff_sections_def diff_loader_def bind_exc_def
      Let_def is_data_diff_def split: if_splits sum.splits)

lemma entry_both_present:
  assumes "map_of (results a) nm = Some r1" and "map_of (results b) nm = Some r2"
  shows "isl (analyzer_entry a b nm) =
           (py_ne (data r1) (data r2) \<and> isl (diff_data nm (data r1) (data r2)))"
    and "(analyzer_entry a b nm = Inr (Some d)) =
           (py_ne (data r1) (data r2) \<and> diff_data nm (data r1) (data r2) = Inr (Some d) \<and>
            payload_truthy d)"
  using assms
  by (auto simp: analyzer_entry_def bind_exc_def split: sum.splits option.splits)

lemma entry_sym:
  assumes "nm \<in> analyzer_names a \<union> analyzer_names b"
  shows "isl (analyzer_entry a b nm) = isl (analyzer_entry b a nm)"
    and "(analyzer_entry a b nm = Inr (Some (StatusDiff ''added''))) =
         (analyzer_entry b a nm = Inr (Some (StatusDiff ''removed'')))"
    and "(analyzer_entry a b nm = Inr (Some (StatusDiff ''removed''))) =
         (analyzer_entry b a nm = Inr (Some (StatusDiff ''added'')))"
    and "(\<exists>d. analyzer_entry a b nm = Inr (Some d) \<and> is_data_diff d) =
         (\<exists>d. analyzer_entry b a nm = Inr (Some d) \<and> is_data_diff d)"
    and "(\<exists>d. analyzer_entry a b nm = Inr (Some d)) =
         (\<exists>d. analyzer_entry b a nm = Inr (Some d))"
proof -
  consider (left) r1 where "map_of (results a) nm = Some r1" "map_of (results b) nm = None"
    | (right) r2 where "map_of (results a) nm = None" "map_of (results b) nm = Some r2"
    | (both) r1 r2 where "map_of (results a) nm = Some r1" "map_of (results b) nm = Some r2"
    using assms
    by (cases "map_of (results a) nm"; cases "map_of (results b) nm")
      (auto simp: analyzer_names_def map_of_eq_None_iff)
  then have "isl (analyzer_entry a b nm) = isl (analyzer_entry b a nm) \<and>
    ((analyzer_entry a b nm = Inr (Some (StatusDiff ''added''))) =
         (analyzer_entry b a nm = Inr (Some (StatusDiff ''removed'')))) \<and>
    ((analyzer_entry a b nm = Inr (Some (StatusDiff ''removed''))) =
         (analyzer_entry b a nm = Inr (Some (StatusDiff ''added'')))) \<and>
    ((\<exists>d. analyzer_entry a b nm = Inr (Some d) \<and> is_data_diff d) =
         (\<exists>d. analyzer_entry b a nm = Inr (Some d) \<and> is_data_diff d)) \<and>
    ((\<exists>d. analyzer_entry a b nm = Inr (Some d)) =
         (\<exists>d. analyzer_entry b a nm = Inr (Some d)))"
  proof cases
    case left
    then show ?thesis by (simp add: analyzer_entry_def is_data_diff_def)
  next
    case right
    then show ?thesis by (simp add: analyzer_entry_def is_data_diff_def)
  next
    case both
    let ?d1 = "data r1" and ?d2 = "data r2"
    note ab = entry_both_present [OF both(1) both(2)]
    note ba = entry_both_present [OF both(2) both(1)]
    note sym = diff_data_sym [of nm ?d1 ?d2] py_ne_sym [of ?d1 ?d2]
    have no_status: "diff_data nm x y \<noteq> Inr (Some (StatusDiff s))" for x y s
      using diff_data_is_data_diff [of nm x y "StatusDiff s"] by (auto simp: is_data_diff_def)
    have ex: "(\<exists>d. analyzer_entry a b nm = Inr (Some d)) =
              (py_ne ?d1 ?d2 \<and> reports (diff_data nm ?d1 ?d2))"
      unfolding ab(2) reports_def by blast
    have ex': "(\<exists>d. analyzer_entry b a nm = Inr (Some d)) =
              (py_ne ?d2 ?d1 \<and> reports (diff_data nm ?d2 ?d1))"
      unfolding ba(2) reports_def by blast
    have dd: "(\<exists>d. analyzer_entry a b nm = Inr (Some d) \<and> is_data_diff d) =
              (\<exists>d. analyzer_entry a b nm = Inr (Some d))"
      unfolding ab(2) using diff_data_is_data_diff by blast
    have dd': "(\<exists>d. analyzer_entry b a nm = Inr (Some d) \<and> is_data_diff d) =
              (\<exists>d. analyzer_entry b a nm = Inr (Some d))"
      unfolding ba(2) using diff_data_is_data_diff by blast
    have "isl (analyzer_entry a b nm) = isl (analyzer_entry b a nm)"
      unfolding ab(1) ba(1) using sym by simp
    moreover have "analyzer_entry a b nm \<noteq> Inr (Some (StatusDiff s))"
      "analyzer_entry b a nm \<noteq> Inr (Some (StatusDiff s))" for s
      unfolding ab(2) ba(2) using no_status by simp_all
    moreover have "(\<exists>d. analyzer_entry a b nm = Inr (Some d)) =
         (\<exists>d. analyzer_entry b a nm = Inr (Some d))"
      unfolding ex ex' using sym by simp
    ultimately show ?thesis
      unfolding dd dd' by simp
  qed
  then show "isl (analyzer_entry a b nm) = isl (analyzer_entry b a nm)"
    and "(analyzer_entry a b nm = Inr (Some (StatusDiff ''added''))) =
         (analyzer_entry b a nm = Inr (Some (StatusDiff ''removed'')))"
    and "(analyzer_entry a b nm = Inr (Some (StatusDiff ''removed''))) =
         (analyzer_entry b a nm = Inr (Some (StatusDiff ''added'')))"
    and "(\<exists>d. analyzer_entry a b nm = Inr (Some d) \<and> is_data_diff d) =
         (\<exists>d. analyzer_entry b a nm = Inr (Some d) \<and> is_data_diff d)"
    and "(\<exists>d. analyzer_entry a b nm = Inr (Some d)) =
         (\<exists>d. analyzer_entry b a nm = Inr (Some d))"
    by blast+
qed

text \<open>
  The names under which \<open>analyzer_diffs\<close> has an entry, and those whose entry satisfies a
  condition.
\<close>

definition diff_names :: "snapshot_comparison \<Rightarrow> string set" where
  "diff_names r = set (map fst (analyzer_diffs r))"

definition names_where :: "(diff_payload \<Rightarrow> bool) \<Rightarrow> snapshot_comparison \<Rightarrow> string set" where
  "names_where P r =
     set (filter (\<lambda>n. case map_of (analyzer_diffs r) n of None \<Rightarrow> False | Some d \<Rightarrow> P d)
            (map fst (analyzer_diffs r)))"

definition added_names :: "snapshot_comparison \<Rightarrow> string set" where
  "added_names r = names_where (\<lambda>d. d = StatusDiff ''added'') r"

definition removed_names :: "snapshot_comparison \<Rightarrow> string set" where
  "removed_names r = names_where (\<lambda>d. d = StatusDiff ''removed'') r"

definition modified_names :: "snapshot_comparison \<Rightarrow> string set" where
  "modified_names r = names_where is_data_diff r"

lemma diff_names_dom: "diff_names r = dom (map_of (analyzer_diffs r))"
  by (simp add: diff_names_def dom_map_of_conv_image_fst)

lemma names_where_iff:
  "n \<in> names_where P r \<longleftrightarrow> (\<exists>d. map_of (analyzer_diffs r) n = Some d \<and> P d)"
  by (auto simp: names_where_def split: option.splits dest: map_of_SomeD
      intro: rev_image_eqI)

definition metadata_entry :: "snapshot \<Rightarrow> snapshot \<Rightarrow> string \<rightharpoonup> diff_payload" where
  "metadata_entry a b =
     map_of (if py_ne (file_size a) (file_size b)
             then [(''_metadata'', MetadataDiff (file_size a) (file_size b))] else [])"

lemma compare_in_raises:
  assumes "\<exists>n \<in> set ns. isl (analyzer_entry a b n)"
  shows "isl (compare_in render ns a b)"
proof -
  let ?st0 = "if py_ne (file_size a) (file_size b)
              then ([(''_metadata'', MetadataDiff (file_size a) (file_size b))], True)
              else ([], False)"
  have "isl (compare_loop ns a b ?st0)"
    using assms by (rule compare_loop_raises)
  then obtain e where "compare_loop ns a b ?st0 = Inl e"
    by (cases "compare_loop ns a b ?st0") auto
  then show ?thesis
    by (simp add: compare_in_def Let_def bind_exc_def)
qed

lemma compare_in_returns:
  assumes "\<forall>n \<in> set ns. \<not> isl (analyzer_entry a b n)"
  shows "\<exists>r. compare_in render ns a b = Inr r \<and>
             map_of (analyzer_diffs r) = entry_at a b ns (metadata_entry a b)"
proof -
  let ?st0 = "if py_ne (file_size a) (file_size b)
              then ([(''_metadata'', MetadataDiff (file_size a) (file_size b))], True)
              else ([], False)"
  from compare_loop_returns [OF assms, of ?st0] obtain diffs flag where
    l: "compare_loop ns a b ?st0 = Inr (diffs, flag)" and
    m: "map_of diffs = entry_at a b ns (map_of (fst ?st0))" by blast
  have "map_of (fst ?st0) = metadata_entry a b"
    by (simp add: metadata_entry_def)
  with l m show ?thesis
    by (simp add: compare_in_def Let_def bind_exc_def)
qed

lemma entry_at_sym:
  assumes u: "set ns = analyzer_names a \<union> analyzer_names b"
      and u': "set ns' = analyzer_names b \<union> analyzer_names a"
      and ok: "\<forall>n \<in> set ns. \<not> isl (analyzer_entry a b n)"
  defines "e \<equiv> entry_at a b ns (metadata_entry a b)"
      and "e' \<equiv> entry_at b a ns' (metadata_entry b a)"
  shows "(e n = None) = (e' n = None)"
    and "(e n = Some (StatusDiff ''added'')) = (e' n = Some (StatusDiff ''removed''))"
    and "(e n = Some (StatusDiff ''removed'')) = (e' n = Some (StatusDiff ''added''))"
    and "(\<exists>d. e n = Some d \<and> is_data_diff d) = (\<exists>d. e' n = Some d \<and> is_data_diff d)"
proof -
  have meta: "metadata_entry a b n = None \<longleftrightarrow> metadata_entry b a n = None"
    "metadata_entry a b n \<noteq> Some (StatusDiff s)"
    "metadata_entry b a n \<noteq> Some (StatusDiff s)"
    "metadata_entry a b n = Some d \<Longrightarrow> \<not> is_data_diff d"
    "metadata_entry b a n = Some d \<Longrightarrow> \<not> is_data_diff d" for s d
    using py_ne_sym [of "file_size a" "file_size b"]
    by (auto simp: metadata_entry_def is_data_diff_def split: if_splits)
  have all: "((e n = None) = (e' n = None)) \<and>
      ((e n = Some (StatusDiff ''added'')) = (e' n = Some (StatusDiff ''removed''))) \<and>
      ((e n = Some (StatusDiff ''removed'')) = (e' n = Some (StatusDiff ''added''))) \<and>
      ((\<exists>d. e n = Some d \<and> is_data_diff d) = (\<exists>d. e' n = Some d \<and> is_data_diff d))"
  proof (cases "n \<in> set ns")
    case False
    with u u' have "n \<notin> set ns'" by auto
    with False meta show ?thesis
      unfolding e_def e'_def entry_at_def by auto
  next
    case True
    with u u' have n': "n \<in> set ns'" and nu: "n \<in> analyzer_names a \<union> analyzer_names b"
      by auto
    note s = entry_sym [OF nu]
    from ok True have r: "\<not> isl (analyzer_entry a b n)" by simp
    with s(1) have r': "\<not> isl (analyzer_entry b a n)" by simp
    from r obtain x where x: "analyzer_entry a b n = Inr x"
      by (cases "analyzer_entry a b n") auto
    from r' obtain y where y: "analyzer_entry b a n = Inr y"
      by (cases "analyzer_entry b a n") auto
    have en: "e n = (case x of None \<Rightarrow> metadata_entry a b n | Some d \<Rightarrow> Some d)"
      unfolding e_def entry_at_def using True x by (simp split: option.splits)
    have en': "e' n = (case y of None \<Rightarrow> metadata_entry b a n | Some d \<Rightarrow> Some d)"
      unfolding e'_def entry_at_def using n' y by (simp split: option.splits)
    from s x y have xy: "(x = Some (StatusDiff ''added'')) = (y = Some (StatusDiff ''removed''))"
      "(x = Some (StatusDiff ''removed'')) = (y = Some (StatusDiff ''added''))"
      "(\<exists>d. x = Some d \<and> is_data_diff d) = (\<exists>d. y = Some d \<and> is_data_diff d)"
      "(\<exists>d. x = Some d) = (\<exists>d. y = Some d)"
      by simp_all
    show ?thesis
      unfolding en en' using xy meta
      by (cases x; cases y) auto
  qed
  from all show "(e n = None) = (e' n = None)" by blast
  from all show "(e n = Some (StatusDiff ''added'')) = (e' n = Some (StatusDiff ''removed''))"
    by blast
  from all show "(e n = Some (StatusDiff ''removed'')) = (e' n = Some (StatusDiff ''added''))"
    by blast
  from all show "(\<exists>d. e n = Some d \<and> is_data_diff d) = (\<exists>d. e' n = Some d \<and> is_data_diff d)"
    by blast
qed

text \<open>
  Claim C5: \<open>compare(A, B)\<close> and \<open>compare(B, A)\<close> have entries under the same names; the
  names marked added in one direction are those marked removed in the other, and the names
  with a data diff are the same in both. One direction raises exactly when the other does.
\<close>

theorem compare_detection_symmetric:
  assumes u: "set ns = analyzer_names a \<union> analyzer_names b"
      and u': "set ns' = analyzer_names b \<union> analyzer_names a"
  shows "case compare_in render ns a b of
           Inl e \<Rightarrow> isl (compare_in render' ns' b a)
         | Inr r \<Rightarrow>
             (case compare_in render' ns' b a of
                Inl e \<Rightarrow> False
              | Inr r' \<Rightarrow>
                  diff_names r = diff_names r' \<and>
                  added_names r = removed_names r' \<and>
                  removed_names r = added_names r' \<and>
                  modified_names r = modified_names r')"
proof (cases "\<exists>n \<in> set ns. isl (analyzer_entry a b n)")
  case True
  then obtain n where n: "n \<in> set ns" "isl (analyzer_entry a b n)" by blast
  with u have "n \<in> analyzer_names a \<union> analyzer_names b" by simp
  from entry_sym(1) [OF this] n u u' have "\<exists>n \<in> set ns'. isl (analyzer_entry b a n)"
    by auto
  then have "isl (compare_in render' ns' b a)" by (rule compare_in_raises)
  moreover have "isl (compare_in render ns a b)" using True by (rule compare_in_raises)
  ultimately show ?thesis by (auto split: sum.splits)
next
  case False
  then have ok: "\<forall>n \<in> set ns. \<not> isl (analyzer_entry a b n)" by simp
  have ok': "\<forall>n \<in> set ns'. \<not> isl (analyzer_entry b a n)"
  proof
    fix n assume "n \<in> set ns'"
    with u u' have "n \<in> set ns" "n \<in> analyzer_names a \<union> analyzer_names b" by auto
    with ok entry_sym(1) [of n a b] show "\<not> isl (analyzer_entry b a n)" by simp
  qed
  from compare_in_returns [OF ok, of render] obtain r where
    r: "compare_in render ns a b = Inr r"
       "map_of (analyzer_diffs r) = entry_at a b ns (metadata_entry a b)" by blast
  from compare_in_returns [OF ok', of render'] obtain r' where
    r': "compare_in render' ns' b a = Inr r'"
        "map_of (analyzer_diffs r') = entry_at b a ns' (metadata_entry b a)" by blast
  note s = entry_at_sym [OF u u' ok]
  have "diff_names r = diff_names r'"
    unfolding diff_names_dom r(2) r'(2) using s(1) by (auto simp: dom_def)
  moreover have "added_names r = removed_names r'"
    unfolding added_names_def removed_names_def set_eq_iff names_where_iff r(2) r'(2)
    using s(2) by simp
  moreover have "removed_names r = added_names r'"
    unfolding added_names_def removed_names_def set_eq_iff names_where_iff r(2) r'(2)
    using s(3) by simp
  moreover have "modified_names r = modified_names r'"
    unfolding modified_names_def set_eq_iff names_where_iff r(2) r'(2)
    using s(4) by simp
  ultimately show ?thesis
    by (simp add: r(1) r'(1))
qed

text \<open>
  Two captures of one file: the second has other identification strings, one more export,
  no section headers, and a result of a further analyzer.
\<close>

definition capture_before :: snapshot where
  "capture_before =
     \<lparr>filepath = JStr ''/usr/lib/libfoo.a'', timestamp = JStr ''2024-05-01T10:00:00'',
      file_size = JInt 4096, file_mtime = JStr ''2024-04-30T09:00:00'',
      file_type = JStr ''xcoff32'', name = JNull,
      results =
        [(''what'', ok_result ''what''
            (JObj [(''strings'', JList [JStr ''foo 1.0'', JStr ''libc 1.2'']), (''count'', JInt 2)])),
         (''dump-h'', ok_result ''dump-h''
            (JObj [(''sections'', JList [JObj [(''index'', JInt 0), (''name'', JStr ''.text'')]]),
                   (''count'', JInt 1), (''raw'', JStr [])])),
         (''dump-T'', ok_result ''dump-T''
            (JObj [(''imports'', JList []), (''exports'', JList []),
                   (''import_count'', JInt 0), (''export_count'', JInt 0),
                   (''raw'', JStr [])]))]\<rparr>"

definition capture_after :: snapshot where
  "capture_after =
     \<lparr>filepath = JStr ''/usr/lib/libfoo.a'', timestamp = JStr ''2024-06-01T10:00:00'',
      file_size = JInt 4200, file_mtime = JStr ''2024-05-30T09:00:00'',
      file_type = JStr ''xcoff32'', name = JNull,
      results =
        [(''what'', ok_result ''what''
            (JObj [(''strings'', JList [JStr ''foo 1.1'', JStr ''libc 1.2'']), (''count'', JInt 2)])),
         (''dump-T'', ok_result ''dump-T''
            (JObj [(''imports'', JList []),
                   (''exports'', JList [JObj [(''name'', JStr ''foo''), (''type'', JStr ''EXP''),
                                             (''address'', JStr ''0x1000''),
                                             (''raw'', JStr [])]]),
                   (''import_count'', JInt 0), (''export_count'', JInt 1),
                   (''raw'', JStr [])])),
         (''strings'', ok_result ''strings'' (JObj []))]\<rparr>"

theorem compare_same_snapshot_witness:
  "set [''dump-T'', ''what'', ''dump-h''] =
     analyzer_names capture_before \<union> analyzer_names capture_before \<and>
   compare_in (\<lambda>c. []) [''dump-T'', ''what'', ''dump-h''] capture_before capture_before =
     Inr \<lparr>filepath1 = JStr ''/usr/lib/libfoo.a'', filepath2 = JStr ''/usr/lib/libfoo.a'',
          has_differences = False, summary = ''No differences'', analyzer_diffs = []\<rparr>"
proof -
  have h: "set [''dump-T'', ''what'', ''dump-h''] =
     analyzer_names capture_before \<union> analyzer_names capture_before"
    by (auto simp: analyzer_names_def capture_before_def)
  have f: "filepath capture_before = JStr ''/usr/lib/libfoo.a''"
    by (simp add: capture_before_def)
  from compare_same_snapshot [OF h, of "\<lambda>c. []"] h f show ?thesis
    by simp
qed

theorem compare_detection_symmetric_witness:
  "set [''what'', ''dump-h'', ''dump-T'', ''strings''] =
     analyzer_names capture_before \<union> analyzer_names capture_after \<and>
   set [''strings'', ''dump-T'', ''dump-h'', ''what''] =
     analyzer_names capture_after \<union> analyzer_names capture_before \<and>
   (case compare_in (\<lambda>c. []) [''what'', ''dump-h'', ''dump-T'', ''strings'']
           capture_before capture_after of
      Inl e \<Rightarrow> False
    | Inr r \<Rightarrow>
        (case compare_in (\<lambda>c. []) [''strings'', ''dump-T'', ''dump-h'', ''what'']
                capture_after capture_before of
           Inl e \<Rightarrow> False
         | Inr r' \<Rightarrow>
             diff_names r = diff_names r' \<and>
             added_names r = removed_names r' \<and>
             removed_names r = added_names r' \<and>
             modified_names r = modified_names r' \<and>
             added_names r = {''strings''} \<and>
             removed_names r = {''dump-h''} \<and>
             modified_names r = {''what'', ''dump-T''}))"
proof -
  have h1: "set [''what'', ''dump-h'', ''dump-T'', ''strings''] =
     analyzer_names capture_before \<union> analyzer_names capture_after"
    by (auto simp: analyzer_names_def capture_before_def capture_after_def)
  have h2: "set [''strings'', ''dump-T'', ''dump-h'', ''what''] =
     analyzer_names capture_after \<union> analyzer_names capture_before"
    by (auto simp: analyzer_names_def capture_before_def capture_after_def)
  have e1: "compare_in (\<lambda>c. []) [''what'', ''dump-h'', ''dump-T'', ''strings'']
           capture_before capture_after =
      Inr \<lparr>filepath1 = JStr ''/usr/lib/libfoo.a'', filepath2 = JStr ''/usr/lib/libfoo.a'',
           has_differences = True,
           summary = ''file size changed; what: +1 -1; dump-h: removed; dump-T: changed; strings: added'',
           analyzer_diffs =
             [(''_metadata'', MetadataDiff (JInt 4096) (JInt 4200)),
              (''what'', WhatDiff [JStr ''foo 1.1''] [JStr ''foo 1.0''] 1),
              (''dump-h'', StatusDiff ''removed''),
              (''dump-T'', LoaderDiff None (Some ([JStr ''foo''], []))),
              (''strings'', StatusDiff ''added'')]\<rparr>"
    by code_simp
  have e2: "compare_in (\<lambda>c. []) [''strings'', ''dump-T'', ''dump-h'', ''what'']
           capture_after capture_before =
      Inr \<lparr>filepath1 = JStr ''/usr/lib/libfoo.a'', filepath2 = JStr ''/usr/lib/libfoo.a'',
           has_differences = True,
           summary = ''file size changed; strings: removed; dump-T: changed; dump-h: added; what: +1 -1'',
           analyzer_diffs =
             [(''_metadata'', MetadataDiff (JInt 4200) (JInt 4096)),
              (''strings'', StatusDiff ''removed''),
              (''dump-T'', LoaderDiff None (Some ([], [JStr ''foo'']))),
              (''dump-h'', StatusDiff ''added''),
              (''what'', WhatDiff [JStr ''foo 1.0''] [JStr ''foo 1.1''] 1)]\<rparr>"
    by code_simp
  from compare_detection_symmetric [OF h1 h2, of "\<lambda>c. []" "\<lambda>c. []"] h1 h2 show ?thesis
    unfolding e1 e2
    by (simp add: added_names_def removed_names_def modified_names_def names_where_def
        is_data_diff_def insert_commute)
qed

end
